theory Spec2Isabelle
  imports Complex_Main "HOL-Library.Char_ord" "HOL-Library.List_Lexorder" "HOL-Library.Sublist"
begin

section \<open>The shop database of \<^verbatim>\<open>database.py\<close>\<close>

text \<open>
  The module keeps seven tables behind an SQLAlchemy session. Each table is modelled as
  the list of its rows in insertion order, a row as a record with the columns of the
  mapped class. Integer columns are \<open>int\<close> (Python integers are unbounded); a value
  of the \<^verbatim>\<open>Float\<close> column \<^verbatim>\<open>price\<close> is a finite double, modelled by the \<open>real\<close>
  number it denotes, and what the code computes from prices is computed in the
  arithmetic of Python floats, not of the reals; a nullable \<^verbatim>\<open>String\<close> column that
  the code tests for presence is a \<open>string option\<close>.
\<close>

subsection \<open>Rows and tables\<close>

record user =
  u_id :: int
  u_telegram_id :: int
  u_username :: "string option"
  u_is_admin :: bool

record category =
  cat_id :: int
  cat_name :: string

record product =
  p_id :: int
  p_name :: string
  p_description :: string
  p_price :: real
  p_image_path :: string
  p_category_id :: int

record cart =
  cart_id :: int
  cart_user_id :: int

record cart_item =
  ci_id :: int
  ci_cart_id :: int
  ci_product_id :: int
  ci_quantity :: int

record order =
  o_id :: int
  o_user_id :: int
  o_created_at :: nat

record order_item =
  oi_id :: int
  oi_order_id :: int
  oi_product_id :: int
  oi_quantity :: int
  oi_price :: real

record db =
  users :: "user list"
  categories :: "category list"
  products :: "product list"
  carts :: "cart list"
  cart_items :: "cart_item list"
  orders :: "order list"
  order_items :: "order_item list"

text \<open>
  An \<^verbatim>\<open>Integer\<close> primary key of SQLite that the insert leaves out is one more than the
  largest key in the table, and 1 in an empty table.
\<close>

definition next_id :: "int list \<Rightarrow> int" where
  "next_id ids = (case ids of [] \<Rightarrow> 1 | x # xs \<Rightarrow> fold max xs x + 1)"

subsection \<open>Exceptions and the session\<close>

text \<open>
  The exceptions the modelled functions can raise: the \<^verbatim>\<open>ValueError\<close> of
  \<^verbatim>\<open>add_to_cart_db\<close> (its message names the product id), and the
  \<^verbatim>\<open>AttributeError\<close> of an attribute read on \<^verbatim>\<open>None\<close>, which is what a
  relationship such as \<^verbatim>\<open>item.product\<close> yields when the referenced row is absent.
\<close>

datatype error = ValueError int | AttributeError

text \<open>
  A session holds the committed store and the store as the open transaction sees it.
  \<^verbatim>\<open>session.add\<close> followed by a flush (explicit, or the automatic one before the next
  query) writes into the transaction's view; \<^verbatim>\<open>commit\<close> makes the view the committed
  store; \<^verbatim>\<open>rollback\<close> throws the view away.
\<close>

record session =
  committed :: db
  working :: db

definition begin_session :: "db \<Rightarrow> session" where
  "begin_session d = \<lparr>committed = d, working = d\<rparr>"

definition commit :: "session \<Rightarrow> session" where
  "commit s = s\<lparr>committed := working s\<rparr>"

definition rollback :: "session \<Rightarrow> session" where
  "rollback s = s\<lparr>working := committed s\<rparr>"

text \<open>
  \<^verbatim>\<open>session_scope\<close>: run the body; commit when it returns, roll back and re-raise when
  it raises. The result is the body's outcome and the store left behind.
\<close>

definition session_scope :: "(session \<Rightarrow> (error + 'a) \<times> session) \<Rightarrow> db \<Rightarrow> (error + 'a) \<times> db" where
  "session_scope body d =
     (case body (begin_session d) of
        (Inr v, s) \<Rightarrow> (Inr v, committed (commit s))
      | (Inl e, s) \<Rightarrow> (Inl e, committed (rollback s)))"

subsection \<open>Queries and inserts\<close>

definition user_by_telegram_id :: "int \<Rightarrow> db \<Rightarrow> user option" where
  "user_by_telegram_id tid d = find (\<lambda>u. u_telegram_id u = tid) (users d)"

definition cart_by_user_id :: "int \<Rightarrow> db \<Rightarrow> cart option" where
  "cart_by_user_id uid d = find (\<lambda>c. cart_user_id c = uid) (carts d)"

definition category_by_name :: "string \<Rightarrow> db \<Rightarrow> category option" where
  "category_by_name n d = find (\<lambda>c. cat_name c = n) (categories d)"

definition product_by_id :: "int \<Rightarrow> db \<Rightarrow> product option" where
  "product_by_id pid d = find (\<lambda>p. p_id p = pid) (products d)"

definition user_by_id :: "int \<Rightarrow> db \<Rightarrow> user option" where
  "user_by_id uid d = find (\<lambda>u. u_id u = uid) (users d)"

definition order_by_id :: "int \<Rightarrow> db \<Rightarrow> order option" where
  "order_by_id oid d = find (\<lambda>o'. o_id o' = oid) (orders d)"

definition items_of_cart :: "int \<Rightarrow> db \<Rightarrow> cart_item list" where
  "items_of_cart cid d = filter (\<lambda>i. ci_cart_id i = cid) (cart_items d)"

definition items_of_order :: "int \<Rightarrow> db \<Rightarrow> order_item list" where
  "items_of_order oid d = filter (\<lambda>i. oi_order_id i = oid) (order_items d)"

definition cart_item_of :: "int \<Rightarrow> int \<Rightarrow> db \<Rightarrow> cart_item option" where
  "cart_item_of cid pid d =
     find (\<lambda>i. ci_cart_id i = cid \<and> ci_product_id i = pid) (cart_items d)"

definition product_by_name_category :: "string \<Rightarrow> int \<Rightarrow> db \<Rightarrow> product option" where
  "product_by_name_category n cid d =
     find (\<lambda>p. p_name p = n \<and> p_category_id p = cid) (products d)"

definition insert_user :: "int \<Rightarrow> string option \<Rightarrow> bool \<Rightarrow> db \<Rightarrow> user \<times> db" where
  "insert_user tid username is_admin d =
     (let u = \<lparr>u_id = next_id (map u_id (users d)), u_telegram_id = tid,
                u_username = username, u_is_admin = is_admin\<rparr>
      in (u, d\<lparr>users := users d @ [u]\<rparr>))"

definition insert_cart :: "int \<Rightarrow> db \<Rightarrow> cart \<times> db" where
  "insert_cart uid d =
     (let c = \<lparr>cart_id = next_id (map cart_id (carts d)), cart_user_id = uid\<rparr>
      in (c, d\<lparr>carts := carts d @ [c]\<rparr>))"

definition insert_cart_item :: "int \<Rightarrow> int \<Rightarrow> int \<Rightarrow> db \<Rightarrow> db" where
  "insert_cart_item cid pid q d =
     d\<lparr>cart_items := cart_items d @
        [\<lparr>ci_id = next_id (map ci_id (cart_items d)), ci_cart_id = cid,
          ci_product_id = pid, ci_quantity = q\<rparr>]\<rparr>"

definition increment_quantity :: "cart_item \<Rightarrow> db \<Rightarrow> db" where
  "increment_quantity item d =
     d\<lparr>cart_items :=
        map (\<lambda>i. if ci_id i = ci_id item then i\<lparr>ci_quantity := ci_quantity i + 1\<rparr> else i)
          (cart_items d)\<rparr>"

definition delete_cart_items :: "int \<Rightarrow> db \<Rightarrow> db" where
  "delete_cart_items cid d =
     d\<lparr>cart_items := filter (\<lambda>i. ci_cart_id i \<noteq> cid) (cart_items d)\<rparr>"

definition insert_order :: "int \<Rightarrow> nat \<Rightarrow> db \<Rightarrow> order \<times> db" where
  "insert_order uid now d =
     (let o' = \<lparr>o_id = next_id (map o_id (orders d)), o_user_id = uid, o_created_at = now\<rparr>
      in (o', d\<lparr>orders := orders d @ [o']\<rparr>))"

definition insert_order_item :: "int \<Rightarrow> int \<Rightarrow> int \<Rightarrow> real \<Rightarrow> db \<Rightarrow> db" where
  "insert_order_item oid pid q pr d =
     d\<lparr>order_items := order_items d @
        [\<lparr>oi_id = next_id (map oi_id (order_items d)), oi_order_id = oid,
          oi_product_id = pid, oi_quantity = q, oi_price = pr\<rparr>]\<rparr>"

definition insert_product :: "string \<Rightarrow> string \<Rightarrow> real \<Rightarrow> int \<Rightarrow> string \<Rightarrow> db \<Rightarrow> db" where
  "insert_product n descr pr cid img d =
     d\<lparr>products := products d @
        [\<lparr>p_id = next_id (map p_id (products d)), p_name = n, p_description = descr,
          p_price = pr, p_image_path = img, p_category_id = cid\<rparr>]\<rparr>"

definition on_working :: "(db \<Rightarrow> db) \<Rightarrow> session \<Rightarrow> session" where
  "on_working f s = s\<lparr>working := f (working s)\<rparr>"

subsection \<open>\<^verbatim>\<open>add_product\<close>\<close>

definition add_product_body ::
  "string \<Rightarrow> string \<Rightarrow> real \<Rightarrow> string \<Rightarrow> string \<Rightarrow> session \<Rightarrow> (error + unit) \<times> session" where
  "add_product_body n descr pr category_name img s =
     (case category_by_name category_name (working s) of
        Some c \<Rightarrow> (Inr (), on_working (insert_product n descr pr (cat_id c) img) s)
      | None \<Rightarrow> (Inr (), s))"

definition add_product ::
  "string \<Rightarrow> string \<Rightarrow> real \<Rightarrow> string \<Rightarrow> string \<Rightarrow> db \<Rightarrow> (error + unit) \<times> db" where
  "add_product n descr pr category_name img =
     session_scope (add_product_body n descr pr category_name img)"

subsection \<open>\<^verbatim>\<open>add_to_cart_db\<close>\<close>

text \<open>
  The three steps of the body up to the lookup of the product: the user is found or
  inserted and flushed (with the column defaults: no name, not an administrator), then
  the cart. Each returns the row and the session.
\<close>

definition ensure_user :: "int \<Rightarrow> session \<Rightarrow> user \<times> session" where
  "ensure_user tid s =
     (case user_by_telegram_id tid (working s) of
        Some u \<Rightarrow> (u, s)
      | None \<Rightarrow>
          (let (u, d) = insert_user tid None False (working s) in (u, s\<lparr>working := d\<rparr>)))"

definition ensure_cart :: "int \<Rightarrow> session \<Rightarrow> cart \<times> session" where
  "ensure_cart uid s =
     (case cart_by_user_id uid (working s) of
        Some c \<Rightarrow> (c, s)
      | None \<Rightarrow> (let (c, d) = insert_cart uid (working s) in (c, s\<lparr>working := d\<rparr>)))"

definition upsert_cart_item :: "int \<Rightarrow> int \<Rightarrow> session \<Rightarrow> session" where
  "upsert_cart_item cid pid s =
     (case cart_item_of cid pid (working s) of
        Some item \<Rightarrow> on_working (increment_quantity item) s
      | None \<Rightarrow> on_working (insert_cart_item cid pid 1) s)"

text \<open>
  The body: the \<^verbatim>\<open>try\<close> block ends in \<^verbatim>\<open>session.commit()\<close>; its handler rolls the
  session back and raises the exception again.
\<close>

definition add_to_cart_body :: "int \<Rightarrow> int \<Rightarrow> session \<Rightarrow> (error + unit) \<times> session" where
  "add_to_cart_body user_id product_id s =
     (let (u, s1) = ensure_user user_id s;
          (c, s2) = ensure_cart (u_id u) s1
      in case product_by_id product_id (working s2) of
           None \<Rightarrow> (Inl (ValueError product_id), rollback s2)
         | Some p \<Rightarrow> (Inr (), commit (upsert_cart_item (cart_id c) product_id s2)))"

definition add_to_cart_db :: "int \<Rightarrow> int \<Rightarrow> db \<Rightarrow> (error + unit) \<times> db" where
  "add_to_cart_db user_id product_id = session_scope (add_to_cart_body user_id product_id)"

subsection \<open>\<^verbatim>\<open>get_cart_items\<close>\<close>

record cart_entry =
  ce_id :: int
  ce_product_id :: int
  ce_quantity :: int
  ce_name :: string
  ce_price :: real

text \<open>
  The list comprehension reads \<^verbatim>\<open>item.product.name\<close> and \<^verbatim>\<open>item.product.price\<close>:
  the current row of the product, and an \<^verbatim>\<open>AttributeError\<close> when there is none.
\<close>

fun cart_entries :: "db \<Rightarrow> cart_item list \<Rightarrow> error + cart_entry list" where
  "cart_entries d [] = Inr []"
| "cart_entries d (item # items) =
     (case product_by_id (ci_product_id item) d of
        None \<Rightarrow> Inl AttributeError
      | Some p \<Rightarrow>
          (case cart_entries d items of
             Inl e \<Rightarrow> Inl e
           | Inr es \<Rightarrow>
               Inr (\<lparr>ce_id = ci_id item, ce_product_id = ci_product_id item,
                     ce_quantity = ci_quantity item, ce_name = p_name p,
                     ce_price = p_price p\<rparr> # es)))"

definition get_cart_items_body :: "int \<Rightarrow> session \<Rightarrow> (error + cart_entry list) \<times> session" where
  "get_cart_items_body user_id s =
     (case user_by_telegram_id user_id (working s) of
        None \<Rightarrow> (Inr [], s)
      | Some u \<Rightarrow>
          (case cart_by_user_id (u_id u) (working s) of
             None \<Rightarrow> (Inr [], s)
           | Some c \<Rightarrow> (cart_entries (working s) (items_of_cart (cart_id c) (working s)), s)))"

definition get_cart_items :: "int \<Rightarrow> db \<Rightarrow> (error + cart_entry list) \<times> db" where
  "get_cart_items user_id = session_scope (get_cart_items_body user_id)"

subsection \<open>\<^verbatim>\<open>create_order\<close>\<close>

text \<open>
  The loop over the cart's items: each iteration reads \<^verbatim>\<open>item.product.price\<close> from
  the transaction's view and adds one order item. An item whose product row is absent
  raises in the middle of the loop, with the order and the earlier items already added.
\<close>

fun copy_items :: "int \<Rightarrow> cart_item list \<Rightarrow> session \<Rightarrow> (error + unit) \<times> session" where
  "copy_items oid [] s = (Inr (), s)"
| "copy_items oid (item # items) s =
     (case product_by_id (ci_product_id item) (working s) of
        None \<Rightarrow> (Inl AttributeError, s)
      | Some p \<Rightarrow>
          copy_items oid items
            (on_working
               (insert_order_item oid (ci_product_id item) (ci_quantity item) (p_price p)) s))"

text \<open>
  \<open>now\<close> is the value of \<^verbatim>\<open>datetime.now\<close> that the column default of
  \<^verbatim>\<open>created_at\<close> takes at the flush. The result \<open>None\<close> is Python's \<^verbatim>\<open>None\<close>,
  \<open>Some i\<close> the new order's id.
\<close>

definition create_order_body :: "nat \<Rightarrow> int \<Rightarrow> session \<Rightarrow> (error + int option) \<times> session" where
  "create_order_body now user_id s =
     (case user_by_telegram_id user_id (working s) of
        None \<Rightarrow> (Inr None, s)
      | Some u \<Rightarrow>
          (case cart_by_user_id (u_id u) (working s) of
             None \<Rightarrow> (Inr None, s)
           | Some c \<Rightarrow>
               (let items = items_of_cart (cart_id c) (working s) in
                if items = [] then (Inr None, s)
                else
                  (let (ord, d1) = insert_order (u_id u) now (working s) in
                   case copy_items (o_id ord) items (s\<lparr>working := d1\<rparr>) of
                     (Inl e, s2) \<Rightarrow> (Inl e, s2)
                   | (Inr _, s2) \<Rightarrow>
                       (Inr (Some (o_id ord)),
                        on_working (delete_cart_items (cart_id c)) s2)))))"

definition create_order :: "nat \<Rightarrow> int \<Rightarrow> db \<Rightarrow> (error + int option) \<times> db" where
  "create_order now user_id = session_scope (create_order_body now user_id)"

subsection \<open>\<^verbatim>\<open>get_order_details\<close>\<close>

record detail_item =
  di_name :: string
  di_quantity :: int
  di_price :: real

text \<open>
  The total is a Python float, the result of float operations: \<open>Some x\<close> is the
  finite double of value \<open>x\<close>, \<open>None\<close> a float that is not a finite number (an
  infinity or a NaN).
\<close>

record order_details =
  od_order_id :: int
  od_user_id :: int
  od_username :: string
  od_items :: "detail_item list"
  od_total :: "real option"

text \<open>The placeholder for a user without a name, as the bytes of its UTF-8 encoding.\<close>

definition not_specified :: string where
  "not_specified =
     map char_of [0xD0, 0x9D, 0xD0, 0xB5, 0x20, 0xD1, 0x83, 0xD0, 0xBA, 0xD0, 0xB0,
                  0xD0, 0xB7, 0xD0, 0xB0, 0xD0, 0xBD :: nat]"

definition username_text :: "string option \<Rightarrow> string" where
  "username_text n = (case n of None \<Rightarrow> not_specified
                      | Some x \<Rightarrow> if x = [] then not_specified else CHR ''@'' # x)"

fun detail_items :: "db \<Rightarrow> order_item list \<Rightarrow> error + detail_item list" where
  "detail_items d [] = Inr []"
| "detail_items d (item # items) =
     (case product_by_id (oi_product_id item) d of
        None \<Rightarrow> Inl AttributeError
      | Some p \<Rightarrow>
          (case detail_items d items of
             Inl e \<Rightarrow> Inl e
           | Inr ds \<Rightarrow>
               Inr (\<lparr>di_name = p_name p, di_quantity = oi_quantity item,
                     di_price = oi_price item\<rparr> # ds)))"

text \<open>
  The two float operations of the function are Python's, not the module's, and are
  parameters of the model: \<open>fl_times\<close> is \<^verbatim>\<open>item.price * item.quantity\<close>, a float
  times an integer, and \<open>fl_sum\<close> is the built-in \<^verbatim>\<open>sum\<close> of the floats, started
  at the integer 0.
\<close>

record float_arith =
  fl_times :: "real \<Rightarrow> int \<Rightarrow> real option"
  fl_sum :: "real option list \<Rightarrow> real option"

definition get_order_details_body ::
  "float_arith \<Rightarrow> int \<Rightarrow> session \<Rightarrow> (error + order_details option) \<times> session" where
  "get_order_details_body fa order_id s =
     (case order_by_id order_id (working s) of
        None \<Rightarrow> (Inr None, s)
      | Some ord \<Rightarrow>
          (let items = items_of_order order_id (working s) in
           case user_by_id (o_user_id ord) (working s) of
             None \<Rightarrow> (Inl AttributeError, s)
           | Some u \<Rightarrow>
               (case detail_items (working s) items of
                  Inl e \<Rightarrow> (Inl e, s)
                | Inr ds \<Rightarrow>
                    (Inr (Some \<lparr>od_order_id = o_id ord, od_user_id = u_telegram_id u,
                                 od_username = username_text (u_username u),
                                 od_items = ds,
                                 od_total =
                                   fl_sum fa
                                     (map (\<lambda>i. fl_times fa (oi_price i) (oi_quantity i)) items)\<rparr>),
                     s))))"

definition get_order_details ::
  "float_arith \<Rightarrow> int \<Rightarrow> db \<Rightarrow> (error + order_details option) \<times> db" where
  "get_order_details fa order_id = session_scope (get_order_details_body fa order_id)"

subsection \<open>\<^verbatim>\<open>import_products\<close>\<close>

text \<open>
  An entry of a snapshot, as \<^verbatim>\<open>export_products\<close> writes it: an object with the five
  keys the loop reads. What \<^verbatim>\<open>json.load\<close> makes of a file is either a failure to
  parse or such a list of entries.
\<close>

record product_data =
  pd_name :: string
  pd_description :: string
  pd_price :: real
  pd_category :: string
  pd_image_path :: string

datatype file_content = Malformed | Snapshot "product_data list"

text \<open>
  What the function sees of the file system: whether the directory \<^verbatim>\<open>backups\<close>
  exists, its listing, and the content of each path that can be opened.
\<close>

record filesystem =
  backups_exists :: bool
  backups_listing :: "string list"
  file_at :: "string \<Rightarrow> file_content option"

datatype io_failure = NoBackupDirectory | NoBackupFiles | OpenFailed | JSONDecodeError

text \<open>The loop over the entries, inside the session.\<close>

fun import_loop :: "product_data list \<Rightarrow> session \<Rightarrow> session" where
  "import_loop [] s = s"
| "import_loop (pd # rest) s =
     (case category_by_name (pd_category pd) (working s) of
        None \<Rightarrow> import_loop rest s
      | Some c \<Rightarrow>
          (case product_by_name_category (pd_name pd) (cat_id c) (working s) of
             Some existing \<Rightarrow> import_loop rest s
           | None \<Rightarrow>
               import_loop rest
                 (on_working
                    (insert_product (pd_name pd) (pd_description pd) (pd_price pd) (cat_id c)
                       (pd_image_path pd)) s)))"

definition import_body :: "product_data list \<Rightarrow> session \<Rightarrow> (error + bool) \<times> session" where
  "import_body products_data s = (Inr True, commit (import_loop products_data s))"

text \<open>
  The choice of the file: the argument when it is given and not empty, else the largest
  name of the listing that starts with \<^verbatim>\<open>products_\<close> and ends with \<^verbatim>\<open>.json\<close>.
\<close>

definition choose_backup_file :: "string option \<Rightarrow> filesystem \<Rightarrow> io_failure + string" where
  "choose_backup_file backup_file fs =
     (if backup_file \<noteq> None \<and> backup_file \<noteq> Some [] then Inr (the backup_file)
      else if \<not> backups_exists fs then Inl NoBackupDirectory
      else
        (case filter (\<lambda>f. prefix ''products_'' f \<and> suffix ''.json'' f) (backups_listing fs) of
           [] \<Rightarrow> Inl NoBackupFiles
         | f # fs' \<Rightarrow> Inr (''backups/'' @ fold max fs' f)))"

definition read_snapshot :: "string \<Rightarrow> filesystem \<Rightarrow> io_failure + product_data list" where
  "read_snapshot path fs =
     (case file_at fs path of
        None \<Rightarrow> Inl OpenFailed
      | Some Malformed \<Rightarrow> Inl JSONDecodeError
      | Some (Snapshot products_data) \<Rightarrow> Inr products_data)"

text \<open>
  The function returns \<^verbatim>\<open>True\<close> after the commit and \<^verbatim>\<open>False\<close> on each of its
  failure paths: the two early returns and the handler of the outer \<^verbatim>\<open>try\<close>, which
  catches every exception.
\<close>

definition import_products :: "string option \<Rightarrow> filesystem \<Rightarrow> db \<Rightarrow> bool \<times> db" where
  "import_products backup_file fs d =
     (case choose_backup_file backup_file fs of
        Inl f \<Rightarrow> (False, d)
      | Inr path \<Rightarrow>
          (case read_snapshot path fs of
             Inl f \<Rightarrow> (False, d)
           | Inr products_data \<Rightarrow>
               (case session_scope (import_body products_data) d of
                  (Inr r, d') \<Rightarrow> (r, d')
                | (Inl e, d') \<Rightarrow> (False, d'))))"

subsection \<open>The arithmetic of Python floats\<close>

text \<open>
  A Python float is an IEEE-754 double: a significand of 53 bits, exponents from
  \<open>-1074\<close> (the unit of the subnormal numbers) upwards, magnitudes below \<open>2 ^ 1024\<close>.
  The result of an operation is the exact result rounded to the nearest double, a tie
  going to the double whose last bit is even; a result whose rounding reaches
  \<open>2 ^ 1024\<close> is an infinity.
\<close>

definition pow2 :: "int \<Rightarrow> real" where
  "pow2 e = (if 0 \<le> e then 2 ^ nat e else 1 / 2 ^ nat (- e))"

definition round_half_even :: "real \<Rightarrow> int" where
  "round_half_even y =
     (let f = \<lfloor>y\<rfloor> in
      if y - of_int f < 1 / 2 then f
      else if 1 / 2 < y - of_int f then f + 1
      else if even f then f else f + 1)"

text \<open>The exponent of the last bit of the doubles around \<open>x\<close>.\<close>

definition double_exponent :: "real \<Rightarrow> int" where
  "double_exponent x = max (\<lfloor>log 2 \<bar>x\<bar>\<rfloor> - 52) (- 1074)"

definition double_round :: "real \<Rightarrow> real option" where
  "double_round x =
     (if x = 0 then Some 0
      else
        (let u = pow2 (double_exponent x);
             r = u * of_int (round_half_even (x / u))
         in if \<bar>r\<bar> < 2 ^ 1024 then Some r else None))"

text \<open>
  A float times an integer: the integer is converted to the nearest double, then the
  doubles are multiplied. (A quantity read from an SQLite \<^verbatim>\<open>INTEGER\<close> column has at
  most 64 bits, so the conversion finds a finite double.) The sum: from 0, one rounded
  addition for each element, from left to right; an operand that is not finite makes the
  result not finite. This is \<^verbatim>\<open>sum\<close> as CPython computes it up to version 3.11; later
  versions also carry a correction for the rounding errors of the additions, which changes
  nothing where no addition rounds.
\<close>

definition ieee_times :: "real \<Rightarrow> int \<Rightarrow> real option" where
  "ieee_times x q =
     (case double_round (of_int q) of
        None \<Rightarrow> None
      | Some y \<Rightarrow> double_round (x * y))"

definition ieee_plus :: "real option \<Rightarrow> real option \<Rightarrow> real option" where
  "ieee_plus a b =
     (case a of
        None \<Rightarrow> None
      | Some x \<Rightarrow> (case b of None \<Rightarrow> None | Some y \<Rightarrow> double_round (x + y)))"

definition ieee_sum :: "real option list \<Rightarrow> real option" where
  "ieee_sum xs = foldl ieee_plus (Some 0) xs"

definition ieee_double :: float_arith where
  "ieee_double = \<lparr>fl_times = ieee_times, fl_sum = ieee_sum\<rparr>"

subsection \<open>\<^verbatim>\<open>add_user\<close>, \<^verbatim>\<open>clear_cart\<close> and \<^verbatim>\<open>init_db\<close>\<close>

text \<open>
  \<^verbatim>\<open>add_user\<close> inserts the user, or sets the administrator flag of the existing row
  and, when a name is given and not empty, its name.
\<close>

definition update_user :: "user \<Rightarrow> bool \<Rightarrow> string option \<Rightarrow> db \<Rightarrow> db" where
  "update_user u is_admin username d =
     d\<lparr>users :=
        map (\<lambda>x. if u_id x = u_id u
                 then x\<lparr>u_is_admin := is_admin,
                        u_username := (if username \<noteq> None \<and> username \<noteq> Some []
                                       then username else u_username x)\<rparr>
                 else x)
          (users d)\<rparr>"

definition add_user_body :: "int \<Rightarrow> bool \<Rightarrow> string option \<Rightarrow> session \<Rightarrow> (error + unit) \<times> session" where
  "add_user_body telegram_id is_admin username s =
     (case user_by_telegram_id telegram_id (working s) of
        None \<Rightarrow> (Inr (), s\<lparr>working := snd (insert_user telegram_id username is_admin (working s))\<rparr>)
      | Some u \<Rightarrow> (Inr (), on_working (update_user u is_admin username) s))"

definition add_user :: "int \<Rightarrow> bool \<Rightarrow> string option \<Rightarrow> db \<Rightarrow> (error + unit) \<times> db" where
  "add_user telegram_id is_admin username = session_scope (add_user_body telegram_id is_admin username)"

definition clear_cart_body :: "int \<Rightarrow> session \<Rightarrow> (error + bool) \<times> session" where
  "clear_cart_body user_id s =
     (case user_by_telegram_id user_id (working s) of
        None \<Rightarrow> (Inr False, s)
      | Some u \<Rightarrow>
          (case cart_by_user_id (u_id u) (working s) of
             None \<Rightarrow> (Inr False, s)
           | Some c \<Rightarrow> (Inr True, on_working (delete_cart_items (cart_id c)) s)))"

definition clear_cart :: "int \<Rightarrow> db \<Rightarrow> (error + bool) \<times> db" where
  "clear_cart user_id = session_scope (clear_cart_body user_id)"

text \<open>The five category names of \<^verbatim>\<open>init_db\<close>, as the bytes of their UTF-8 encoding.\<close>

definition seed_categories :: "string list" where
  "seed_categories =
     map (map char_of)
       [[0xF0, 0x9F, 0x92, 0xA8, 0x20, 0xD0, 0x96, 0xD0, 0xB8, 0xD0, 0xB6, 0xD0, 0xB0],
        [0xF0, 0x9F, 0x9A, 0xAC, 0x20, 0xD0, 0x9E, 0xD0, 0xB4, 0xD0, 0xBD, 0xD0, 0xBE, 0xD1, 0x80,
         0xD0, 0xB0, 0xD0, 0xB7, 0xD0, 0xBA, 0xD0, 0xB8],
        [0xF0, 0x9F, 0x94, 0x8B, 0x20, 0xD0, 0x9F, 0xD0, 0xBE, 0xD0, 0xB4, 0x20, 0xD1, 0x81, 0xD0,
         0xB8, 0xD1, 0x81, 0xD1, 0x82, 0xD0, 0xB5, 0xD0, 0xBC, 0xD1, 0x8B],
        [0xF0, 0x9F, 0x8D, 0xAB, 0x20, 0xD0, 0xA1, 0xD0, 0xBD, 0xD1, 0x8E, 0xD1, 0x81],
        [0xF0, 0x9F, 0x9B, 0xA0, 0x20, 0xD0, 0x90, 0xD0, 0xBA, 0xD1, 0x81, 0xD0, 0xB5, 0xD1, 0x81,
         0xD1, 0x81, 0xD1, 0x83, 0xD0, 0xB0, 0xD1, 0x80, 0xD1, 0x8B :: nat]]"

definition insert_category :: "string \<Rightarrow> db \<Rightarrow> db" where
  "insert_category n d =
     d\<lparr>categories := categories d @
        [\<lparr>cat_id = next_id (map cat_id (categories d)), cat_name = n\<rparr>]\<rparr>"

fun seed_loop :: "string list \<Rightarrow> session \<Rightarrow> session" where
  "seed_loop [] s = s"
| "seed_loop (category_name # rest) s =
     (case category_by_name category_name (working s) of
        None \<Rightarrow> seed_loop rest (on_working (insert_category category_name) s)
      | Some c \<Rightarrow> seed_loop rest s)"

text \<open>
  \<open>admin_id\<close> is the integer read from the environment (0 when the variable is not
  set; a text that is no integer raises before anything is committed). After the
  categories and the administrator the body commits and calls \<^verbatim>\<open>import_products()\<close>,
  which works on the same session and commits by itself.
\<close>

definition init_db_body :: "int \<Rightarrow> filesystem \<Rightarrow> session \<Rightarrow> (error + unit) \<times> session" where
  "init_db_body admin_id fs s =
     (let s1 = seed_loop seed_categories s;
          s2 = (if admin_id \<noteq> 0
                then (case user_by_telegram_id admin_id (working s1) of
                        None \<Rightarrow> s1\<lparr>working := snd (insert_user admin_id None True (working s1))\<rparr>
                      | Some a \<Rightarrow> s1)
                else s1);
          s3 = commit s2;
          d' = snd (import_products None fs (committed s3))
      in (Inr (), \<lparr>committed = d', working = d'\<rparr>))"

definition init_db :: "int \<Rightarrow> filesystem \<Rightarrow> db \<Rightarrow> (error + unit) \<times> db" where
  "init_db admin_id fs = session_scope (init_db_body admin_id fs)"

subsection \<open>Notions used in the statements\<close>

text \<open>A cart item whose product row exists in the store.\<close>

definition has_product :: "db \<Rightarrow> cart_item \<Rightarrow> bool" where
  "has_product d i \<longleftrightarrow> product_by_id (ci_product_id i) d \<noteq> None"

text \<open>
  An order item that is the copy of a cart item into the order \<open>oid\<close>: same product,
  same quantity, and the price the product has in the store \<open>d\<close>.
\<close>

definition copy_of :: "int \<Rightarrow> db \<Rightarrow> order_item \<Rightarrow> cart_item \<Rightarrow> bool" where
  "copy_of oid d n i \<longleftrightarrow>
     oi_order_id n = oid \<and> oi_product_id n = ci_product_id i \<and>
     oi_quantity n = ci_quantity i \<and>
     map_option p_price (product_by_id (ci_product_id i) d) = Some (oi_price n)"

text \<open>
  A later change of prices: any write to the \<^verbatim>\<open>price\<close> column of the products, the
  new price of each row given by \<open>f\<close>. The module itself has no such operation.
\<close>

definition change_prices :: "(product \<Rightarrow> real) \<Rightarrow> db \<Rightarrow> db" where
  "change_prices f d = d\<lparr>products := map (\<lambda>p. p\<lparr>p_price := f p\<rparr>) (products d)\<rparr>"

text \<open>A caller that makes a sequence of calls of \<^verbatim>\<open>add_to_cart_db\<close>, whatever each returns.\<close>

fun add_calls :: "(int \<times> int) list \<Rightarrow> db \<Rightarrow> db" where
  "add_calls [] d = d"
| "add_calls ((user_id, product_id) # calls) d =
     add_calls calls (snd (add_to_cart_db user_id product_id d))"

text \<open>
  The table of cart items holds at most one row for each cart and product: no pair of a
  cart id and a product id occurs twice.
\<close>

definition one_row_per_product :: "db \<Rightarrow> bool" where
  "one_row_per_product d \<longleftrightarrow>
     distinct (map (\<lambda>i. (ci_cart_id i, ci_product_id i)) (cart_items d))"

text \<open>
  Every cart belongs to a user of the store and every cart item to a cart of the store:
  the foreign keys of \<^verbatim>\<open>carts\<close> and \<^verbatim>\<open>cart_items\<close> point at existing rows.
\<close>

definition cart_refs_ok :: "db \<Rightarrow> bool" where
  "cart_refs_ok d \<longleftrightarrow>
     list_all (\<lambda>c. cart_user_id c \<in> set (map u_id (users d))) (carts d) \<and>
     list_all (\<lambda>i. ci_cart_id i \<in> set (map cart_id (carts d))) (cart_items d)"

text \<open>An entry of a snapshot whose category name resolves in the store.\<close>

definition resolvable :: "db \<Rightarrow> product_data \<Rightarrow> bool" where
  "resolvable d pd \<longleftrightarrow> category_by_name (pd_category pd) d \<noteq> None"

text \<open>The empty store, and a small one used in the examples.\<close>

definition empty_db :: db where
  "empty_db = \<lparr>users = [], categories = [], products = [], carts = [], cart_items = [],
                orders = [], order_items = []\<rparr>"

definition shop_db :: db where
  "shop_db =
     \<lparr>users = [\<lparr>u_id = 1, u_telegram_id = 7, u_username = None, u_is_admin = False\<rparr>],
      categories = [\<lparr>cat_id = 1, cat_name = ''snus''\<rparr>],
      products =
        [\<lparr>p_id = 1, p_name = ''A'', p_description = ''a'', p_price = 10,
          p_image_path = ''a.png'', p_category_id = 1\<rparr>,
         \<lparr>p_id = 2, p_name = ''B'', p_description = ''b'', p_price = 5,
          p_image_path = ''b.png'', p_category_id = 1\<rparr>],
      carts = [\<lparr>cart_id = 1, cart_user_id = 1\<rparr>],
      cart_items =
        [\<lparr>ci_id = 1, ci_cart_id = 1, ci_product_id = 1, ci_quantity = 2\<rparr>,
         \<lparr>ci_id = 2, ci_cart_id = 1, ci_product_id = 2, ci_quantity = 1\<rparr>],
      orders = [], order_items = []\<rparr>"

text \<open>The small store after user 7 has converted the cart into an order at time 5.\<close>

definition shop_db_ordered :: db where
  "shop_db_ordered =
     shop_db\<lparr>cart_items := [],
             orders := [\<lparr>o_id = 1, o_user_id = 1, o_created_at = 5\<rparr>],
             order_items :=
               [\<lparr>oi_id = 1, oi_order_id = 1, oi_product_id = 1, oi_quantity = 2, oi_price = 10\<rparr>,
                \<lparr>oi_id = 2, oi_order_id = 1, oi_product_id = 2, oi_quantity = 1, oi_price = 5\<rparr>]\<rparr>"

text \<open>
  Three file systems: one without the directory \<^verbatim>\<open>backups\<close>, one whose latest
  snapshot is not well-formed, and one whose latest snapshot holds four entries: a
  product the small store has, a new product, an entry of an unknown category, and the
  new product once more.
\<close>

definition no_backups :: filesystem where
  "no_backups = \<lparr>backups_exists = False, backups_listing = [], file_at = (\<lambda>p. None)\<rparr>"

definition malformed_backup :: filesystem where
  "malformed_backup =
     \<lparr>backups_exists = True,
      backups_listing = [''products_20240101_120000.json'', ''notes.txt''],
      file_at = (\<lambda>p. if p = ''backups/products_20240101_120000.json'' then Some Malformed
                     else None)\<rparr>"

definition snapshot_a :: "product_data list" where
  "snapshot_a =
     [\<lparr>pd_name = ''A'', pd_description = ''a2'', pd_price = 11, pd_category = ''snus'',
       pd_image_path = ''a2.png''\<rparr>,
      \<lparr>pd_name = ''C'', pd_description = ''c'', pd_price = 3, pd_category = ''snus'',
       pd_image_path = ''c.png''\<rparr>,
      \<lparr>pd_name = ''D'', pd_description = ''d'', pd_price = 4, pd_category = ''vape'',
       pd_image_path = ''d.png''\<rparr>,
      \<lparr>pd_name = ''C'', pd_description = ''c2'', pd_price = 30, pd_category = ''snus'',
       pd_image_path = ''c2.png''\<rparr>]"

definition good_backup :: filesystem where
  "good_backup =
     \<lparr>backups_exists = True,
      backups_listing =
        [''products_20240101_120000.json'', ''products_20240102_120000.json'', ''notes.txt''],
      file_at = (\<lambda>p. if p = ''backups/products_20240102_120000.json'' then Some (Snapshot snapshot_a)
                     else if p = ''backups/products_20240101_120000.json'' then Some (Snapshot [])
                     else None)\<rparr>"

text \<open>The small store after the import of the four entries: one product is new.\<close>

definition shop_db_imported :: db where
  "shop_db_imported =
     shop_db\<lparr>products := products shop_db @
        [\<lparr>p_id = 3, p_name = ''C'', p_description = ''c'', p_price = 3,
          p_image_path = ''c.png'', p_category_id = 1\<rparr>]\<rparr>"

text \<open>
  The items of a user's cart as the first three queries of \<^verbatim>\<open>get_cart_items\<close> find
  them: \<open>None\<close> when the user or the cart does not exist.
\<close>

definition user_cart_items :: "int \<Rightarrow> db \<Rightarrow> cart_item list option" where
  "user_cart_items user_id d =
     (case user_by_telegram_id user_id d of
        None \<Rightarrow> None
      | Some u \<Rightarrow>
          (case cart_by_user_id (u_id u) d of
             None \<Rightarrow> None
           | Some c \<Rightarrow> Some (items_of_cart (cart_id c) d)))"

text \<open>The small store before anyone has used it: the catalog only.\<close>

definition catalog_db :: db where
  "catalog_db = shop_db\<lparr>users := [], carts := [], cart_items := []\<rparr>"

text \<open>
  The stores the module can produce: it starts from a store in which nobody has shopped
  yet (no cart, no cart item, no order, no order item; any users and catalog), and each
  step is a call of one of the functions of the module that write to the store.
\<close>

inductive reachable :: "db \<Rightarrow> bool" where
  fresh: "carts d = [] \<Longrightarrow> cart_items d = [] \<Longrightarrow> orders d = [] \<Longrightarrow> order_items d = [] \<Longrightarrow>
          reachable d"
| by_init_db: "reachable d \<Longrightarrow> reachable (snd (init_db admin_id fs d))"
| by_add_user: "reachable d \<Longrightarrow> reachable (snd (add_user telegram_id is_admin username d))"
| by_add_product:
    "reachable d \<Longrightarrow> reachable (snd (add_product n descr pr category_name img d))"
| by_add_to_cart_db: "reachable d \<Longrightarrow> reachable (snd (add_to_cart_db user_id product_id d))"
| by_clear_cart: "reachable d \<Longrightarrow> reachable (snd (clear_cart user_id d))"
| by_create_order: "reachable d \<Longrightarrow> reachable (snd (create_order now user_id d))"
| by_import_products: "reachable d \<Longrightarrow> reachable (snd (import_products backup_file fs d))"

text \<open>
  The foreign keys that the relationships follow point at existing rows, and the cart
  items have one row for each cart and product.
\<close>

definition store_ok :: "db \<Rightarrow> bool" where
  "store_ok d \<longleftrightarrow>
     cart_refs_ok d \<and>
     list_all (\<lambda>i. ci_product_id i \<in> set (map p_id (products d))) (cart_items d) \<and>
     list_all (\<lambda>x. o_user_id x \<in> set (map u_id (users d))) (orders d) \<and>
     list_all (\<lambda>i. oi_product_id i \<in> set (map p_id (products d))) (order_items d) \<and>
     one_row_per_product d"




section \<open>Properties\<close>

subsection \<open>The session\<close>

lemma session_scope_Inr:
  "body (begin_session d) = (Inr v, s) \<Longrightarrow> session_scope body d = (Inr v, working s)"
  by (simp add: session_scope_def commit_def)

lemma session_scope_Inl:
  "body (begin_session d) = (Inl e, s) \<Longrightarrow> committed s = d \<Longrightarrow> session_scope body d = (Inl e, d)"
  by (simp add: session_scope_def rollback_def)

lemma begin_session_simps [simp]:
  "working (begin_session d) = d" "committed (begin_session d) = d"
  by (simp_all add: begin_session_def)

subsection \<open>Copying the cart into an order\<close>

lemma product_by_id_order_items [simp]:
  "product_by_id pid (w\<lparr>order_items := x\<rparr>) = product_by_id pid w"
  by (simp add: product_by_id_def)

lemma has_product_order_items [simp]:
  "has_product (w\<lparr>order_items := x\<rparr>) = has_product w"
  by (simp add: has_product_def fun_eq_iff)

lemma copy_items_committed: "copy_items oid items s = (r, s') \<Longrightarrow> committed s' = committed s"
  by (induction items arbitrary: s) (auto simp: on_working_def split: option.splits)

lemma copy_items_fail:
  "\<not> list_all (has_product (working s)) items \<Longrightarrow> fst (copy_items oid items s) = Inl AttributeError"
proof (induction items arbitrary: s)
  case Nil
  then show ?case by simp
next
  case (Cons i items)
  show ?case
  proof (cases "product_by_id (ci_product_id i) (working s)")
    case None
    then show ?thesis by simp
  next
    case (Some p)
    then have "has_product (working s) i"
      by (simp add: has_product_def)
    with Cons.prems have "\<not> list_all (has_product (working s)) items"
      by simp
    then have "\<not> list_all (has_product (working (on_working
               (insert_order_item oid (ci_product_id i) (ci_quantity i) (p_price p)) s))) items"
      by (simp add: on_working_def insert_order_item_def)
    from Cons.IH [OF this] Some show ?thesis by simp
  qed
qed

lemma copy_items_ok:
  "list_all (has_product (working s)) items \<Longrightarrow>
   \<exists>new. copy_items oid items s =
            (Inr (), s\<lparr>working := (working s)\<lparr>order_items := order_items (working s) @ new\<rparr>\<rparr>) \<and>
          list_all2 (copy_of oid (working s)) new items"
proof (induction items arbitrary: s)
  case Nil
  then show ?case by simp
next
  case (Cons i items)
  from Cons.prems obtain p where p: "product_by_id (ci_product_id i) (working s) = Some p"
    by (auto simp: has_product_def)
  let ?s1 = "on_working (insert_order_item oid (ci_product_id i) (ci_quantity i) (p_price p)) s"
  have w1: "working ?s1 = (working s)\<lparr>order_items := order_items (working s) @
      [\<lparr>oi_id = next_id (map oi_id (order_items (working s))), oi_order_id = oid,
        oi_product_id = ci_product_id i, oi_quantity = ci_quantity i, oi_price = p_price p\<rparr>]\<rparr>"
    by (simp add: on_working_def insert_order_item_def)
  have "list_all (has_product (working ?s1)) items"
    using Cons.prems by (simp add: w1)
  from Cons.IH [OF this] obtain new where
    new: "copy_items oid items ?s1 =
            (Inr (), ?s1\<lparr>working := (working ?s1)\<lparr>order_items := order_items (working ?s1) @ new\<rparr>\<rparr>)"
    and all: "list_all2 (copy_of oid (working ?s1)) new items"
    by blast
  let ?n = "\<lparr>oi_id = next_id (map oi_id (order_items (working s))), oi_order_id = oid,
        oi_product_id = ci_product_id i, oi_quantity = ci_quantity i, oi_price = p_price p\<rparr>"
  have "copy_of oid (working ?s1) = copy_of oid (working s)"
    by (simp add: w1 copy_of_def fun_eq_iff)
  with all have all': "list_all2 (copy_of oid (working s)) new items" by simp
  have "copy_of oid (working s) ?n i"
    by (simp add: copy_of_def p)
  with all' have "list_all2 (copy_of oid (working s)) (?n # new) (i # items)" by simp
  moreover have "copy_items oid (i # items) s =
      (Inr (), s\<lparr>working := (working s)\<lparr>order_items := order_items (working s) @ (?n # new)\<rparr>\<rparr>)"
    using p new by (simp add: w1) (simp add: on_working_def)
  ultimately show ?case by blast
qed

lemma create_order_success:
  assumes u: "user_by_telegram_id uid d = Some u"
    and c: "cart_by_user_id (u_id u) d = Some c"
    and ne: "items_of_cart (cart_id c) d \<noteq> []"
    and ok: "list_all (has_product d) (items_of_cart (cart_id c) d)"
  shows "\<exists>new. create_order now uid d =
           (Inr (Some (next_id (map o_id (orders d)))),
            d\<lparr>cart_items := filter (\<lambda>i. ci_cart_id i \<noteq> cart_id c) (cart_items d),
               orders := orders d @
                 [\<lparr>o_id = next_id (map o_id (orders d)), o_user_id = u_id u, o_created_at = now\<rparr>],
               order_items := order_items d @ new\<rparr>) \<and>
         list_all2 (copy_of (next_id (map o_id (orders d))) d) new (items_of_cart (cart_id c) d)"
proof -
  let ?oid = "next_id (map o_id (orders d))"
  let ?ord = "\<lparr>o_id = ?oid, o_user_id = u_id u, o_created_at = now\<rparr>"
  let ?d1 = "d\<lparr>orders := orders d @ [?ord]\<rparr>"
  let ?s1 = "(begin_session d)\<lparr>working := ?d1\<rparr>"
  let ?items = "items_of_cart (cart_id c) d"
  have hp: "has_product ?d1 = has_product d"
    by (simp add: has_product_def product_by_id_def fun_eq_iff)
  have co: "copy_of ?oid ?d1 = copy_of ?oid d"
    by (simp add: copy_of_def product_by_id_def fun_eq_iff)
  have "list_all (has_product (working ?s1)) ?items"
    using ok by (simp add: hp)
  from copy_items_ok [OF this, of ?oid] obtain new where
    new: "copy_items ?oid ?items ?s1 =
            (Inr (), ?s1\<lparr>working := ?d1\<lparr>order_items := order_items ?d1 @ new\<rparr>\<rparr>)"
    and all: "list_all2 (copy_of ?oid d) new ?items"
    by (auto simp: co)
  have "create_order_body now uid (begin_session d) =
     (Inr (Some ?oid),
      on_working (delete_cart_items (cart_id c))
        (?s1\<lparr>working := ?d1\<lparr>order_items := order_items ?d1 @ new\<rparr>\<rparr>))"
    using u c ne new by (simp add: create_order_body_def insert_order_def Let_def)
  then have "create_order now uid d =
     (Inr (Some ?oid),
      working (on_working (delete_cart_items (cart_id c))
        (?s1\<lparr>working := ?d1\<lparr>order_items := order_items ?d1 @ new\<rparr>\<rparr>)))"
    unfolding create_order_def by (rule session_scope_Inr)
  then have "create_order now uid d =
           (Inr (Some ?oid),
            d\<lparr>cart_items := filter (\<lambda>i. ci_cart_id i \<noteq> cart_id c) (cart_items d),
               orders := orders d @ [?ord],
               order_items := order_items d @ new\<rparr>)"
    by (simp add: on_working_def delete_cart_items_def)
  with all show ?thesis by blast
qed

lemma create_order_failure:
  assumes u: "user_by_telegram_id uid d = Some u"
    and c: "cart_by_user_id (u_id u) d = Some c"
    and ne: "items_of_cart (cart_id c) d \<noteq> []"
    and bad: "\<not> list_all (has_product d) (items_of_cart (cart_id c) d)"
  shows "create_order now uid d = (Inl AttributeError, d)"
proof -
  let ?oid = "next_id (map o_id (orders d))"
  let ?ord = "\<lparr>o_id = ?oid, o_user_id = u_id u, o_created_at = now\<rparr>"
  let ?d1 = "d\<lparr>orders := orders d @ [?ord]\<rparr>"
  let ?s1 = "(begin_session d)\<lparr>working := ?d1\<rparr>"
  let ?items = "items_of_cart (cart_id c) d"
  have hp: "has_product ?d1 = has_product d"
    by (simp add: has_product_def product_by_id_def fun_eq_iff)
  obtain r s2 where r: "copy_items ?oid ?items ?s1 = (r, s2)"
    by (cases "copy_items ?oid ?items ?s1")
  have "\<not> list_all (has_product (working ?s1)) ?items"
    using bad by (simp add: hp)
  from copy_items_fail [OF this, of ?oid] r have r': "r = Inl AttributeError" by simp
  from copy_items_committed [OF r] have cm: "committed s2 = d" by simp
  have "create_order_body now uid (begin_session d) = (Inl AttributeError, s2)"
    using u c ne r r' by (simp add: create_order_body_def insert_order_def Let_def)
  then show ?thesis
    unfolding create_order_def using cm by (rule session_scope_Inl)
qed

lemma create_order_no_user:
  "user_by_telegram_id uid d = None \<Longrightarrow> create_order now uid d = (Inr None, d)"
  by (simp add: create_order_def session_scope_def create_order_body_def commit_def)

lemma create_order_no_cart:
  "user_by_telegram_id uid d = Some u \<Longrightarrow> cart_by_user_id (u_id u) d = None \<Longrightarrow>
   create_order now uid d = (Inr None, d)"
  by (simp add: create_order_def session_scope_def create_order_body_def commit_def)

lemma create_order_no_items:
  "user_by_telegram_id uid d = Some u \<Longrightarrow> cart_by_user_id (u_id u) d = Some c \<Longrightarrow>
   items_of_cart (cart_id c) d = [] \<Longrightarrow> create_order now uid d = (Inr None, d)"
  by (simp add: create_order_def session_scope_def create_order_body_def commit_def)

text \<open>
  C1. For a user whose cart holds items, a call of \<^verbatim>\<open>create_order\<close> has one of two
  outcomes. When every item's product row exists, it returns the id of a new order of
  that user; the store gains that order and one order item per cart item, each the copy
  of its cart item, loses every cart item of the cart, and is otherwise as before.
  Otherwise it raises, and the store is exactly the one before the call: the order and
  the items added before the failure are rolled back.
\<close>

theorem create_order_atomic:
  assumes "user_by_telegram_id uid d = Some u"
    and "cart_by_user_id (u_id u) d = Some c"
    and "items_of_cart (cart_id c) d \<noteq> []"
  shows "(\<exists>oid new.
            create_order now uid d =
              (Inr (Some oid),
               d\<lparr>cart_items := filter (\<lambda>i. ci_cart_id i \<noteq> cart_id c) (cart_items d),
                  orders := orders d @ [\<lparr>o_id = oid, o_user_id = u_id u, o_created_at = now\<rparr>],
                  order_items := order_items d @ new\<rparr>) \<and>
            list_all2 (copy_of oid d) new (items_of_cart (cart_id c) d) \<and>
            items_of_cart (cart_id c) (snd (create_order now uid d)) = [])
         \<or> (\<exists>e. create_order now uid d = (Inl e, d))"
proof (cases "list_all (has_product d) (items_of_cart (cart_id c) d)")
  case True
  from create_order_success [OF assms True, of now] obtain new where
    eq: "create_order now uid d =
           (Inr (Some (next_id (map o_id (orders d)))),
            d\<lparr>cart_items := filter (\<lambda>i. ci_cart_id i \<noteq> cart_id c) (cart_items d),
               orders := orders d @
                 [\<lparr>o_id = next_id (map o_id (orders d)), o_user_id = u_id u, o_created_at = now\<rparr>],
               order_items := order_items d @ new\<rparr>)"
    and all: "list_all2 (copy_of (next_id (map o_id (orders d))) d) new (items_of_cart (cart_id c) d)"
    by blast
  have "items_of_cart (cart_id c) (snd (create_order now uid d)) = []"
    by (simp add: eq items_of_cart_def)
  with eq all show ?thesis by blast
next
  case False
  from create_order_failure [OF assms False] show ?thesis by blast
qed

theorem create_order_atomic_witness:
  "user_by_telegram_id 7 shop_db = Some \<lparr>u_id = 1, u_telegram_id = 7, u_username = None, u_is_admin = False\<rparr> \<and>
   cart_by_user_id 1 shop_db = Some \<lparr>cart_id = 1, cart_user_id = 1\<rparr> \<and>
   items_of_cart 1 shop_db \<noteq> [] \<and>
   ((\<exists>oid new.
       create_order 5 7 shop_db =
         (Inr (Some oid),
          shop_db\<lparr>cart_items := filter (\<lambda>i. ci_cart_id i \<noteq> 1) (cart_items shop_db),
                  orders := orders shop_db @ [\<lparr>o_id = oid, o_user_id = 1, o_created_at = 5\<rparr>],
                  order_items := order_items shop_db @ new\<rparr>) \<and>
       list_all2 (copy_of oid shop_db) new (items_of_cart 1 shop_db) \<and>
       items_of_cart 1 (snd (create_order 5 7 shop_db)) = [])
    \<or> (\<exists>e. create_order 5 7 shop_db = (Inl e, shop_db)))"
proof -
  let ?u = "\<lparr>u_id = 1, u_telegram_id = 7, u_username = None, u_is_admin = False\<rparr>"
  let ?c = "\<lparr>cart_id = 1, cart_user_id = 1\<rparr>"
  have h1: "user_by_telegram_id 7 shop_db = Some ?u"
    by (simp add: user_by_telegram_id_def shop_db_def)
  have h2: "cart_by_user_id (u_id ?u) shop_db = Some ?c"
    by (simp add: cart_by_user_id_def shop_db_def)
  have h3: "items_of_cart (cart_id ?c) shop_db \<noteq> []"
    by (simp add: items_of_cart_def shop_db_def)
  from create_order_atomic [OF h1 h2 h3, of 5] h1 h2 h3 show ?thesis by simp
qed

text \<open>
  C5. When the user does not exist, or has no cart, or the cart holds no item,
  \<^verbatim>\<open>create_order\<close> returns \<^verbatim>\<open>None\<close> without raising, and the store is unchanged.
\<close>

theorem create_order_noop:
  assumes "user_by_telegram_id uid d = None \<or>
           (\<exists>u. user_by_telegram_id uid d = Some u \<and>
                (cart_by_user_id (u_id u) d = None \<or>
                 (\<exists>c. cart_by_user_id (u_id u) d = Some c \<and> items_of_cart (cart_id c) d = [])))"
  shows "create_order now uid d = (Inr None, d)"
  using assms create_order_no_user create_order_no_cart create_order_no_items by blast

theorem create_order_noop_witness:
  "user_by_telegram_id 8 shop_db = None \<and>
   create_order 5 8 shop_db = (Inr None, shop_db) \<and>
   create_order 5 7 (shop_db\<lparr>carts := []\<rparr>) = (Inr None, shop_db\<lparr>carts := []\<rparr>) \<and>
   create_order 5 7 (shop_db\<lparr>cart_items := []\<rparr>) = (Inr None, shop_db\<lparr>cart_items := []\<rparr>)"
proof -
  let ?u = "\<lparr>u_id = 1, u_telegram_id = 7, u_username = None, u_is_admin = False\<rparr>"
  have h1: "user_by_telegram_id 8 shop_db = None"
    by (simp add: user_by_telegram_id_def shop_db_def)
  have h2: "user_by_telegram_id 7 (shop_db\<lparr>carts := []\<rparr>) = Some ?u \<and>
            cart_by_user_id (u_id ?u) (shop_db\<lparr>carts := []\<rparr>) = None"
    by (simp add: user_by_telegram_id_def cart_by_user_id_def shop_db_def)
  have h3: "user_by_telegram_id 7 (shop_db\<lparr>cart_items := []\<rparr>) = Some ?u \<and>
            cart_by_user_id (u_id ?u) (shop_db\<lparr>cart_items := []\<rparr>) = Some \<lparr>cart_id = 1, cart_user_id = 1\<rparr> \<and>
            items_of_cart (cart_id \<lparr>cart_id = 1, cart_user_id = 1\<rparr>) (shop_db\<lparr>cart_items := []\<rparr>) = []"
    by (simp add: user_by_telegram_id_def cart_by_user_id_def items_of_cart_def shop_db_def)
  from create_order_noop [of 8 shop_db 5] h1
  have "create_order 5 8 shop_db = (Inr None, shop_db)" by blast
  moreover from create_order_noop [of 7 "shop_db\<lparr>carts := []\<rparr>" 5] h2
  have "create_order 5 7 (shop_db\<lparr>carts := []\<rparr>) = (Inr None, shop_db\<lparr>carts := []\<rparr>)" by blast
  moreover from create_order_noop [of 7 "shop_db\<lparr>cart_items := []\<rparr>" 5] h3
  have "create_order 5 7 (shop_db\<lparr>cart_items := []\<rparr>) = (Inr None, shop_db\<lparr>cart_items := []\<rparr>)" by blast
  ultimately show ?thesis using h1 by blast
qed

subsection \<open>Adding to the cart\<close>

lemma ensure_user_frame:
  "ensure_user tid s = (u, s1) \<Longrightarrow>
   committed s1 = committed s \<and> products (working s1) = products (working s) \<and>
   carts (working s1) = carts (working s) \<and> cart_items (working s1) = cart_items (working s)"
  by (auto simp: ensure_user_def insert_user_def Let_def split: option.splits)

lemma ensure_cart_frame:
  "ensure_cart uid s = (c, s1) \<Longrightarrow>
   committed s1 = committed s \<and> products (working s1) = products (working s) \<and>
   users (working s1) = users (working s) \<and> cart_items (working s1) = cart_items (working s)"
  by (auto simp: ensure_cart_def insert_cart_def Let_def split: option.splits)

lemma add_to_cart_db_no_product:
  assumes "product_by_id pid d = None"
  shows "add_to_cart_db uid pid d = (Inl (ValueError pid), d)"
proof -
  obtain u s1 where s1: "ensure_user uid (begin_session d) = (u, s1)"
    by (cases "ensure_user uid (begin_session d)")
  obtain c s2 where s2: "ensure_cart (u_id u) s1 = (c, s2)"
    by (cases "ensure_cart (u_id u) s1")
  from ensure_user_frame [OF s1] ensure_cart_frame [OF s2]
  have cm: "committed s2 = d" and pr: "products (working s2) = products d"
    by simp_all
  from assms pr have "product_by_id pid (working s2) = None"
    by (simp add: product_by_id_def)
  with s1 s2 have "add_to_cart_body uid pid (begin_session d) = (Inl (ValueError pid), rollback s2)"
    by (simp add: add_to_cart_body_def)
  moreover have "committed (rollback s2) = d"
    using cm by (simp add: rollback_def)
  ultimately show ?thesis
    unfolding add_to_cart_db_def by (rule session_scope_Inl)
qed

text \<open>
  C6. When no product has the id, \<^verbatim>\<open>add_to_cart_db\<close> raises the \<^verbatim>\<open>ValueError\<close>
  that names the id and the store is exactly the one before the call: the user and the
  cart that the call may have inserted and flushed are rolled back.
\<close>

theorem add_to_cart_product_not_found:
  assumes "product_by_id pid d = None"
  shows "add_to_cart_db uid pid d = (Inl (ValueError pid), d)"
  using assms by (rule add_to_cart_db_no_product)

theorem add_to_cart_product_not_found_witness:
  "product_by_id 3 empty_db = None \<and>
   add_to_cart_db 7 3 empty_db = (Inl (ValueError 3), empty_db) \<and>
   users (working (snd (ensure_cart 1 (snd (ensure_user 7 (begin_session empty_db)))))) \<noteq> []"
proof -
  have h: "product_by_id 3 empty_db = None"
    by (simp add: product_by_id_def empty_db_def)
  have "users (working (snd (ensure_cart 1 (snd (ensure_user 7 (begin_session empty_db)))))) \<noteq> []"
    by (simp add: ensure_cart_def ensure_user_def begin_session_def empty_db_def
        user_by_telegram_id_def cart_by_user_id_def insert_user_def insert_cart_def
        Let_def next_id_def)
  with add_to_cart_product_not_found [OF h, of 7] h show ?thesis by simp
qed

text \<open>
  C10. When no category has the name, \<^verbatim>\<open>add_product\<close> inserts nothing and leaves the
  store unchanged; it returns normally, with the same value \<^verbatim>\<open>None\<close> that every other
  call of it returns, so the caller cannot tell that nothing was added.
\<close>

theorem add_product_unknown_category:
  assumes "category_by_name category_name d = None"
  shows "add_product n descr pr category_name img d = (Inr (), d) \<and>
         fst (add_product n descr pr category_name img d) =
           fst (add_product n' descr' pr' category_name' img' d')"
proof -
  have "add_product n descr pr category_name img d = (Inr (), d)"
    using assms
    by (simp add: add_product_def session_scope_def add_product_body_def commit_def)
  moreover have "fst (add_product n' descr' pr' category_name' img' d') = Inr ()"
    by (simp add: add_product_def session_scope_def add_product_body_def commit_def
        split: option.splits)
  ultimately show ?thesis by simp
qed

theorem add_product_unknown_category_witness:
  "category_by_name ''vape'' shop_db = None \<and>
   add_product ''C'' ''c'' 3 ''vape'' ''c.png'' shop_db = (Inr (), shop_db) \<and>
   fst (add_product ''C'' ''c'' 3 ''vape'' ''c.png'' shop_db) =
     fst (add_product ''C'' ''c'' 3 ''snus'' ''c.png'' shop_db) \<and>
   snd (add_product ''C'' ''c'' 3 ''snus'' ''c.png'' shop_db) \<noteq> shop_db"
proof -
  have h: "category_by_name ''vape'' shop_db = None"
    by (simp add: category_by_name_def shop_db_def)
  have "snd (add_product ''C'' ''c'' 3 ''snus'' ''c.png'' shop_db) \<noteq> shop_db"
    by (simp add: add_product_def session_scope_def add_product_body_def commit_def
        category_by_name_def shop_db_def on_working_def insert_product_def begin_session_def)
  with add_product_unknown_category [OF h, of "''C''" "''c''" 3 "''c.png''" "''C''" "''c''" 3 "''snus''" "''c.png''" shop_db]
    h show ?thesis by blast
qed

subsection \<open>Order details\<close>



lemma create_order_Some_cases:
  assumes "create_order now uid d = (Inr (Some oid), d')"
  obtains u c where "user_by_telegram_id uid d = Some u" "cart_by_user_id (u_id u) d = Some c"
    "items_of_cart (cart_id c) d \<noteq> []" "list_all (has_product d) (items_of_cart (cart_id c) d)"
proof (cases "user_by_telegram_id uid d")
  case None
  from create_order_no_user [OF None, of now] assms show ?thesis by simp
next
  case (Some u)
  show ?thesis
  proof (cases "cart_by_user_id (u_id u) d")
    case None
    from create_order_no_cart [OF Some None, of now] assms show ?thesis by simp
  next
    case c: (Some c)
    show ?thesis
    proof (cases "items_of_cart (cart_id c) d = []")
      case True
      from create_order_no_items [OF Some c True, of now] assms show ?thesis by simp
    next
      case ne: False
      show ?thesis
      proof (cases "list_all (has_product d) (items_of_cart (cart_id c) d)")
        case True
        with Some c ne that show ?thesis by blast
      next
        case False
        from create_order_failure [OF Some c ne False, of now] assms show ?thesis by simp
      qed
    qed
  qed
qed

lemma find_map_row: "find P (map g xs) = map_option g (find (\<lambda>x. P (g x)) xs)"
  by (induction xs) simp_all

lemma product_by_id_change_prices:
  "product_by_id pid (change_prices f d) =
     map_option (\<lambda>p. p\<lparr>p_price := f p\<rparr>) (product_by_id pid d)"
  by (simp add: product_by_id_def change_prices_def find_map_row)

lemma detail_items_change_prices:
  "detail_items (change_prices f d) items = detail_items d items"
proof (induction items)
  case Nil
  show ?case by simp
next
  case (Cons i items)
  then show ?case
    by (cases "product_by_id (oi_product_id i) d")
      (simp_all add: product_by_id_change_prices split: sum.splits)
qed

lemma get_order_details_change_prices:
  "fst (get_order_details fa oid (change_prices f d)) = fst (get_order_details fa oid d)"
proof -
  have 1: "order_by_id oid (change_prices f d) = order_by_id oid d"
    and 2: "items_of_order oid (change_prices f d) = items_of_order oid d"
    and 3: "user_by_id x (change_prices f d) = user_by_id x d" for x
    by (simp_all add: order_by_id_def items_of_order_def user_by_id_def change_prices_def)
  show ?thesis
    by (simp add: get_order_details_def session_scope_def get_order_details_body_def
        commit_def rollback_def Let_def 1 2 3 detail_items_change_prices
        split: option.splits sum.splits)
qed

lemma create_order_shop_db: "create_order 5 7 shop_db = (Inr (Some 1), shop_db_ordered)"
  by (simp add: create_order_def session_scope_def create_order_body_def commit_def
      begin_session_def shop_db_def shop_db_ordered_def user_by_telegram_id_def
      cart_by_user_id_def items_of_cart_def insert_order_def Let_def next_id_def
      product_by_id_def on_working_def insert_order_item_def delete_cart_items_def)

subsection \<open>Totals in double arithmetic\<close>

lemma pow2_powr: "pow2 e = 2 powr (of_int e)"
  by (simp add: pow2_def powr_real_of_int field_simps)

lemma pow2_pos: "0 < pow2 e"
  by (simp add: pow2_def)

lemma double_exponent_eq:
  assumes "pow2 k \<le> \<bar>x\<bar>" and "\<bar>x\<bar> < pow2 (k + 1)"
  shows "double_exponent x = max (k - 52) (- 1074)"
proof -
  from assms(1) pow2_pos [of k] have pos: "0 < \<bar>x\<bar>" by linarith
  have "\<lfloor>log 2 \<bar>x\<bar>\<rfloor> = k"
    using assms pos by (simp add: floor_log_eq_powr_iff pow2_powr)
  then show ?thesis by (simp add: double_exponent_def)
qed

text \<open>
  Rounding a number of the normal range, once its binade \<open>k\<close> is known: the doubles
  there are the multiples of \<open>pow2 (k - 52)\<close>.
\<close>

lemma double_round_eq:
  assumes "pow2 k \<le> \<bar>x\<bar>" and "\<bar>x\<bar> < pow2 (k + 1)" and "- 1022 \<le> k"
    and "round_half_even (x / pow2 (k - 52)) = m"
    and "\<bar>pow2 (k - 52) * of_int m\<bar> < 2 ^ 1024"
  shows "double_round x = Some (pow2 (k - 52) * of_int m)"
proof -
  from assms(1) pow2_pos [of k] have "0 < \<bar>x\<bar>" by linarith
  then have nz: "x \<noteq> 0" by simp
  from double_exponent_eq [OF assms(1,2)] assms(3) have "double_exponent x = k - 52" by simp
  with nz assms(4,5) show ?thesis by (simp add: double_round_def Let_def)
qed




text \<open>The small integers of the examples are doubles: rounding leaves them as they are.\<close>

lemma double_round_small:
  "double_round 1 = Some 1" "double_round 2 = Some 2" "double_round 3 = Some 3"
  "double_round 5 = Some 5" "double_round 10 = Some 10" "double_round 20 = Some 20"
  "double_round 25 = Some 25"
proof -
  have r: "double_round x = Some x"
    if "pow2 k \<le> \<bar>x\<bar>" "\<bar>x\<bar> < pow2 (k + 1)" "- 1022 \<le> k"
      "round_half_even (x / pow2 (k - 52)) = m" "pow2 (k - 52) * of_int m = x" "\<bar>x\<bar> < 2 ^ 1024"
    for x k m
    using double_round_eq [of k x m] that by simp
  show "double_round 1 = Some 1"
    by (rule r [of 0 _ "2 ^ 52"]) (simp_all add: pow2_def round_half_even_def Let_def)
  show "double_round 2 = Some 2"
    by (rule r [of 1 _ "2 ^ 52"]) (simp_all add: pow2_def round_half_even_def Let_def)
  show "double_round 3 = Some 3"
    by (rule r [of 1 _ "3 * 2 ^ 51"]) (simp_all add: pow2_def round_half_even_def Let_def)
  show "double_round 5 = Some 5"
    by (rule r [of 2 _ "5 * 2 ^ 50"]) (simp_all add: pow2_def round_half_even_def Let_def)
  show "double_round 10 = Some 10"
    by (rule r [of 3 _ "5 * 2 ^ 50"]) (simp_all add: pow2_def round_half_even_def Let_def)
  show "double_round 20 = Some 20"
    by (rule r [of 4 _ "5 * 2 ^ 50"]) (simp_all add: pow2_def round_half_even_def Let_def)
  show "double_round 25 = Some 25"
    by (rule r [of 4 _ "25 * 2 ^ 48"]) (simp_all add: pow2_def round_half_even_def Let_def)
qed





lemma get_order_details_shop_db:
  "fst (get_order_details ieee_double 1 shop_db_ordered) =
     Inr (Some \<lparr>od_order_id = 1, od_user_id = 7, od_username = not_specified,
                od_items = [\<lparr>di_name = ''A'', di_quantity = 2, di_price = 10\<rparr>,
                            \<lparr>di_name = ''B'', di_quantity = 1, di_price = 5\<rparr>],
                od_total = Some 25\<rparr>)"
proof -
  have "ieee_sum [ieee_times 10 2, ieee_times 5 1] = Some 25"
    by (simp add: ieee_sum_def ieee_plus_def ieee_times_def double_round_small)
  then show ?thesis
    by (simp add: get_order_details_def session_scope_def get_order_details_body_def commit_def
        ieee_double_def Let_def begin_session_def shop_db_ordered_def shop_db_def
        order_by_id_def items_of_order_def user_by_id_def product_by_id_def username_text_def)
qed



text \<open>
  C2. When \<^verbatim>\<open>create_order\<close> returns the id of a new order, the order items it has
  added each carry the price that the referenced product had in the store at the call.
  A later change of product prices leaves the table of order items as it is, and
  \<^verbatim>\<open>get_order_details\<close> of the order returns the same prices and the same total as
  before the change.
\<close>

theorem price_snapshot:
  assumes "create_order now uid d = (Inr (Some oid), d')"
  shows "\<exists>new. order_items d' = order_items d @ new \<and> new \<noteq> [] \<and>
           list_all (\<lambda>n. oi_order_id n = oid \<and>
                          map_option p_price (product_by_id (oi_product_id n) d) = Some (oi_price n)) new \<and>
           order_items (change_prices f d') = order_items d' \<and>
           fst (get_order_details fa oid (change_prices f d')) = fst (get_order_details fa oid d')"
proof -
  from assms obtain u c where u: "user_by_telegram_id uid d = Some u"
    and c: "cart_by_user_id (u_id u) d = Some c"
    and ne: "items_of_cart (cart_id c) d \<noteq> []"
    and ok: "list_all (has_product d) (items_of_cart (cart_id c) d)"
    by (rule create_order_Some_cases)
  from create_order_success [OF u c ne ok, of now] assms obtain new where
    d': "order_items d' = order_items d @ new"
    and all: "list_all2 (copy_of oid d) new (items_of_cart (cart_id c) d)"
    by auto
  from all ne have "new \<noteq> []" by auto
  moreover have "list_all (\<lambda>n. oi_order_id n = oid \<and>
       map_option p_price (product_by_id (oi_product_id n) d) = Some (oi_price n)) new"
    unfolding list_all_length
  proof (intro allI impI)
    fix k assume "k < length new"
    with all have "copy_of oid d (new ! k) (items_of_cart (cart_id c) d ! k)"
      by (simp add: list_all2_conv_all_nth)
    then show "oi_order_id (new ! k) = oid \<and>
       map_option p_price (product_by_id (oi_product_id (new ! k)) d) = Some (oi_price (new ! k))"
      by (simp add: copy_of_def)
  qed
  moreover have "order_items (change_prices f d') = order_items d'"
    by (simp add: change_prices_def)
  ultimately show ?thesis
    using d' get_order_details_change_prices by blast
qed

theorem price_snapshot_witness:
  "create_order 5 7 shop_db = (Inr (Some 1), shop_db_ordered) \<and>
   (\<exists>new. order_items shop_db_ordered = order_items shop_db @ new \<and> new \<noteq> [] \<and>
      list_all (\<lambda>n. oi_order_id n = 1 \<and>
                     map_option p_price (product_by_id (oi_product_id n) shop_db) = Some (oi_price n)) new \<and>
      order_items (change_prices (\<lambda>p. p_price p + 1) shop_db_ordered) = order_items shop_db_ordered \<and>
      fst (get_order_details ieee_double 1 (change_prices (\<lambda>p. p_price p + 1) shop_db_ordered)) =
        fst (get_order_details ieee_double 1 shop_db_ordered)) \<and>
   map p_price (products (change_prices (\<lambda>p. p_price p + 1) shop_db_ordered)) = [11, 6] \<and>
   map_option od_total
     (projr (fst (get_order_details ieee_double 1
        (change_prices (\<lambda>p. p_price p + 1) shop_db_ordered)))) = Some (Some 25)"
proof -
  have pr: "map p_price (products (change_prices (\<lambda>p. p_price p + 1) shop_db_ordered)) = [11, 6]"
    by (simp add: change_prices_def shop_db_ordered_def shop_db_def)
  have "map_option od_total (projr (fst (get_order_details ieee_double 1 shop_db_ordered))) =
      Some (Some 25)"
    by (simp add: get_order_details_shop_db)
  then have tot: "map_option od_total
     (projr (fst (get_order_details ieee_double 1
        (change_prices (\<lambda>p. p_price p + 1) shop_db_ordered)))) = Some (Some 25)"
    by (simp add: get_order_details_change_prices)
  from price_snapshot [OF create_order_shop_db, of "\<lambda>p. p_price p + 1" ieee_double]
    create_order_shop_db pr tot
  show ?thesis by blast
qed

subsection \<open>Failures of the import\<close>

lemma choose_no_backups: "choose_backup_file None no_backups = Inl NoBackupDirectory"
  by (simp add: choose_backup_file_def no_backups_def)

lemma choose_malformed_backup:
  "choose_backup_file None malformed_backup = Inr ''backups/products_20240101_120000.json''"
  by (simp add: choose_backup_file_def malformed_backup_def suffix_def)

lemma choose_good_backup:
  "choose_backup_file None good_backup = Inr ''backups/products_20240102_120000.json''"
  by (simp add: choose_backup_file_def good_backup_def suffix_def)

lemma import_body_scope:
  "session_scope (import_body products_data) d =
     (Inr True, working (import_loop products_data (begin_session d)))"
  by (simp add: session_scope_def import_body_def commit_def)

text \<open>
  C9, as the code has it. Whether the directory is missing, no snapshot is listed, the
  file cannot be opened or its content is not well-formed, \<^verbatim>\<open>import_products\<close>
  returns the one value \<^verbatim>\<open>False\<close> and leaves the store unchanged; no exception reaches
  the caller, and a snapshot that can be read gives \<^verbatim>\<open>True\<close>. The kind of the failure
  is not part of what is returned.
\<close>

theorem import_failure_returns_False:
  "(choose_backup_file backup_file fs = Inl f \<longrightarrow> import_products backup_file fs d = (False, d)) \<and>
   (choose_backup_file backup_file fs = Inr path \<and> read_snapshot path fs = Inl f \<longrightarrow>
      import_products backup_file fs d = (False, d)) \<and>
   (choose_backup_file backup_file fs = Inr path \<and> read_snapshot path fs = Inr products_data \<longrightarrow>
      fst (import_products backup_file fs d) = True)"
  by (simp add: import_products_def import_body_scope)

theorem import_failure_returns_False_witness:
  "choose_backup_file None no_backups = Inl NoBackupDirectory \<and>
   import_products None no_backups shop_db = (False, shop_db) \<and>
   choose_backup_file None malformed_backup = Inr ''backups/products_20240101_120000.json'' \<and>
   read_snapshot ''backups/products_20240101_120000.json'' malformed_backup = Inl JSONDecodeError \<and>
   import_products None malformed_backup shop_db = (False, shop_db) \<and>
   choose_backup_file None good_backup = Inr ''backups/products_20240102_120000.json'' \<and>
   read_snapshot ''backups/products_20240102_120000.json'' good_backup = Inr snapshot_a \<and>
   fst (import_products None good_backup shop_db) = True"
proof -
  have r1: "read_snapshot ''backups/products_20240101_120000.json'' malformed_backup = Inl JSONDecodeError"
    by (simp add: read_snapshot_def malformed_backup_def)
  have r2: "read_snapshot ''backups/products_20240102_120000.json'' good_backup = Inr snapshot_a"
    by (simp add: read_snapshot_def good_backup_def)
  from import_failure_returns_False [of None no_backups NoBackupDirectory shop_db]
    import_failure_returns_False [of None malformed_backup JSONDecodeError shop_db
      "''backups/products_20240101_120000.json''"]
    import_failure_returns_False [of None good_backup _ shop_db
      "''backups/products_20240102_120000.json''" snapshot_a]
    choose_no_backups choose_malformed_backup choose_good_backup r1 r2
  show ?thesis by blast
qed

text \<open>
  The claim as stated fails: a missing directory and a snapshot that is not well-formed
  are different failures inside the function, and the caller gets the same result for
  both.
\<close>

theorem import_failures_indistinguishable:
  "choose_backup_file None no_backups = Inl NoBackupDirectory \<and>
   read_snapshot ''backups/products_20240101_120000.json'' malformed_backup = Inl JSONDecodeError \<and>
   NoBackupDirectory \<noteq> JSONDecodeError \<and>
   import_products None no_backups shop_db = import_products None malformed_backup shop_db"
proof -
  have r: "read_snapshot ''backups/products_20240101_120000.json'' malformed_backup = Inl JSONDecodeError"
    by (simp add: read_snapshot_def malformed_backup_def)
  show ?thesis
    by (simp add: import_products_def choose_no_backups choose_malformed_backup r)
qed

subsection \<open>The import loop\<close>

lemma import_loop_frame:
  "committed (import_loop S s) = committed s \<and>
   users (working (import_loop S s)) = users (working s) \<and>
   categories (working (import_loop S s)) = categories (working s) \<and>
   carts (working (import_loop S s)) = carts (working s) \<and>
   cart_items (working (import_loop S s)) = cart_items (working s) \<and>
   orders (working (import_loop S s)) = orders (working s) \<and>
   order_items (working (import_loop S s)) = order_items (working s)"
  by (induction S arbitrary: s)
    (simp_all add: on_working_def insert_product_def split: option.splits)

lemma import_loop_category [simp]:
  "category_by_name n (working (import_loop S s)) = category_by_name n (working s)"
  by (simp add: category_by_name_def import_loop_frame)

lemma import_loop_products:
  "\<exists>new. products (working (import_loop S s)) = products (working s) @ new"
proof (induction S arbitrary: s)
  case Nil
  show ?case by simp
next
  case (Cons pd S)
  show ?case
  proof (cases "category_by_name (pd_category pd) (working s)")
    case None
    with Cons.IH [of s] show ?thesis by simp
  next
    case (Some c)
    show ?thesis
    proof (cases "product_by_name_category (pd_name pd) (cat_id c) (working s)")
      case ex: (Some p)
      with Some Cons.IH [of s] show ?thesis by simp
    next
      case None
      let ?s1 = "on_working (insert_product (pd_name pd) (pd_description pd) (pd_price pd)
                   (cat_id c) (pd_image_path pd)) s"
      from Cons.IH [of ?s1] obtain new where
        "products (working (import_loop S ?s1)) = products (working ?s1) @ new"
        by blast
      moreover have "\<exists>p. products (working ?s1) = products (working s) @ [p]"
        by (simp add: on_working_def insert_product_def)
      ultimately have "\<exists>new. products (working (import_loop S ?s1)) = products (working s) @ new"
        by auto
      with Some None show ?thesis by simp
    qed
  qed
qed

lemma find_append_keeps: "find P xs \<noteq> None \<Longrightarrow> find P (xs @ ys) \<noteq> None"
  by (induction xs) auto

lemma import_loop_keeps:
  assumes "product_by_name_category n k (working s) \<noteq> None"
  shows "product_by_name_category n k (working (import_loop S s)) \<noteq> None"
proof -
  from import_loop_products [of S s] obtain new where
    "products (working (import_loop S s)) = products (working s) @ new" by blast
  with assms show ?thesis
    by (simp add: product_by_name_category_def find_append_keeps)
qed

lemma insert_product_found:
  "product_by_name_category n k (insert_product n descr pr k img d) \<noteq> None"
proof -
  let ?p = "\<lparr>p_id = next_id (map p_id (products d)), p_name = n, p_description = descr,
             p_price = pr, p_image_path = img, p_category_id = k\<rparr>"
  have "?p \<in> set (products (insert_product n descr pr k img d))"
    by (simp add: insert_product_def)
  moreover have "p_name ?p = n \<and> p_category_id ?p = k" by simp
  ultimately show ?thesis
    unfolding product_by_name_category_def find_None_iff by blast
qed

lemma import_loop_present:
  "pd \<in> set S \<Longrightarrow> category_by_name (pd_category pd) (working s) = Some c \<Longrightarrow>
   product_by_name_category (pd_name pd) (cat_id c) (working (import_loop S s)) \<noteq> None"
proof (induction S arbitrary: s)
  case Nil
  then show ?case by simp
next
  case (Cons e S)
  let ?s1 = "\<lambda>k. on_working (insert_product (pd_name e) (pd_description e) (pd_price e)
                   k (pd_image_path e)) s"
  have cat1: "category_by_name x (working (?s1 k)) = category_by_name x (working s)" for x k
    by (simp add: category_by_name_def on_working_def insert_product_def)
  show ?case
  proof (cases "pd = e")
    case True
    show ?thesis
    proof (cases "product_by_name_category (pd_name e) (cat_id c) (working s)")
      case None
      have "product_by_name_category (pd_name e) (cat_id c) (working (?s1 (cat_id c))) \<noteq> None"
        by (simp add: on_working_def insert_product_found)
      from import_loop_keeps [OF this] None Cons.prems(2) True show ?thesis by simp
    next
      case (Some p)
      then have "product_by_name_category (pd_name e) (cat_id c) (working s) \<noteq> None" by simp
      from import_loop_keeps [OF this] Some Cons.prems(2) True show ?thesis by simp
    qed
  next
    case False
    with Cons.prems have mem: "pd \<in> set S" by simp
    show ?thesis
    proof (cases "category_by_name (pd_category e) (working s)")
      case None
      with Cons.IH [OF mem Cons.prems(2)] show ?thesis by simp
    next
      case (Some c')
      show ?thesis
      proof (cases "product_by_name_category (pd_name e) (cat_id c') (working s)")
        case None
        from Cons.prems(2) have "category_by_name (pd_category pd) (working (?s1 (cat_id c'))) = Some c"
          by (simp add: cat1)
        from Cons.IH [OF mem this] Some None show ?thesis by simp
      next
        case ex: (Some p)
        with Cons.IH [OF mem Cons.prems(2)] Some show ?thesis by simp
      qed
    qed
  qed
qed

lemma import_loop_nothing_new:
  "list_all (\<lambda>pd. case category_by_name (pd_category pd) (working s) of
                     None \<Rightarrow> True
                   | Some c \<Rightarrow> product_by_name_category (pd_name pd) (cat_id c) (working s) \<noteq> None) S \<Longrightarrow>
   import_loop S s = s"
  by (induction S) (auto split: option.splits)

lemma import_loop_skips:
  "import_loop S s = import_loop (filter (resolvable (working s)) S) s"
proof (induction S arbitrary: s)
  case Nil
  show ?case by simp
next
  case (Cons e S)
  let ?s1 = "\<lambda>k. on_working (insert_product (pd_name e) (pd_description e) (pd_price e)
                   k (pd_image_path e)) s"
  have res1: "resolvable (working (?s1 k)) = resolvable (working s)" for k
    by (simp add: resolvable_def category_by_name_def on_working_def insert_product_def fun_eq_iff)
  show ?case
  proof (cases "category_by_name (pd_category e) (working s)")
    case None
    then have "\<not> resolvable (working s) e" by (simp add: resolvable_def)
    with None Cons.IH [of s] show ?thesis by simp
  next
    case (Some c)
    then have r: "resolvable (working s) e" by (simp add: resolvable_def)
    show ?thesis
    proof (cases "product_by_name_category (pd_name e) (cat_id c) (working s)")
      case None
      with Some r Cons.IH [of "?s1 (cat_id c)"] show ?thesis by (simp add: res1)
    next
      case ex: (Some p)
      with Some r Cons.IH [of s] show ?thesis by simp
    qed
  qed
qed

lemma import_products_read:
  "choose_backup_file bf fs = Inr path \<Longrightarrow> read_snapshot path fs = Inr S \<Longrightarrow>
   import_products bf fs d = (True, working (import_loop S (begin_session d)))"
  by (simp add: import_products_def session_scope_def import_body_def commit_def)

lemma import_products_unread:
  "choose_backup_file bf fs = Inl f \<or>
   (choose_backup_file bf fs = Inr path \<and> read_snapshot path fs = Inl f) \<Longrightarrow>
   import_products bf fs d = (False, d)"
  by (auto simp: import_products_def)

lemma import_loop_all_present:
  "list_all (\<lambda>pd. case category_by_name (pd_category pd) d of
                     None \<Rightarrow> True
                   | Some c \<Rightarrow>
                       product_by_name_category (pd_name pd) (cat_id c)
                         (working (import_loop S (begin_session d))) \<noteq> None) S"
  unfolding list_all_iff
proof
  fix pd assume "pd \<in> set S"
  then show "case category_by_name (pd_category pd) d of
               None \<Rightarrow> True
             | Some c \<Rightarrow>
                 product_by_name_category (pd_name pd) (cat_id c)
                   (working (import_loop S (begin_session d))) \<noteq> None"
    using import_loop_present [of pd S "begin_session d"]
    by (simp split: option.splits)
qed

lemma import_loop_twice:
  "import_loop S (begin_session (working (import_loop S (begin_session d)))) =
     begin_session (working (import_loop S (begin_session d)))"
proof (rule import_loop_nothing_new)
  let ?d1 = "working (import_loop S (begin_session d))"
  have "category_by_name n ?d1 = category_by_name n d" for n
    by simp
  with import_loop_all_present [where d = d and S = S]
  show "list_all (\<lambda>pd. case category_by_name (pd_category pd) (working (begin_session ?d1)) of
                     None \<Rightarrow> True
                   | Some c \<Rightarrow>
                       product_by_name_category (pd_name pd) (cat_id c)
                         (working (begin_session ?d1)) \<noteq> None) S"
    by (simp cong: option.case_cong)
qed

text \<open>
  C4. Running \<^verbatim>\<open>import_products\<close> a second time, on the same file system and the
  store the first run left, returns what the first run returned and leaves that store
  as it is. When the snapshot can be read, both runs return \<^verbatim>\<open>True\<close>, and after the
  first run every entry whose category resolves has a product of its name in that
  category, so the second run inserts nothing.
\<close>

theorem import_idempotent:
  "import_products bf fs (snd (import_products bf fs d)) =
     (fst (import_products bf fs d), snd (import_products bf fs d)) \<and>
   (choose_backup_file bf fs = Inr path \<and> read_snapshot path fs = Inr S \<longrightarrow>
      import_products bf fs (snd (import_products bf fs d)) =
        (True, snd (import_products bf fs d)) \<and>
      list_all (\<lambda>pd. case category_by_name (pd_category pd) d of
                        None \<Rightarrow> True
                      | Some c \<Rightarrow>
                          product_by_name_category (pd_name pd) (cat_id c)
                            (snd (import_products bf fs d)) \<noteq> None) S)"
proof -
  have read: "import_products bf fs (snd (import_products bf fs d)) =
        (True, snd (import_products bf fs d)) \<and>
      fst (import_products bf fs d) = True \<and>
      list_all (\<lambda>pd. case category_by_name (pd_category pd) d of
                        None \<Rightarrow> True
                      | Some c \<Rightarrow>
                          product_by_name_category (pd_name pd) (cat_id c)
                            (snd (import_products bf fs d)) \<noteq> None) S'"
    if "choose_backup_file bf fs = Inr path'" "read_snapshot path' fs = Inr S'" for path' S'
    using import_loop_all_present [where d = d and S = S']
    by (simp add: import_products_read [OF that] import_loop_twice cong: option.case_cong)
  have unread: "import_products bf fs (snd (import_products bf fs d)) =
     (fst (import_products bf fs d), snd (import_products bf fs d))"
    if "choose_backup_file bf fs = Inl f \<or>
        (choose_backup_file bf fs = Inr path' \<and> read_snapshot path' fs = Inl f)" for f path'
    by (simp add: import_products_unread [OF that])
  have "import_products bf fs (snd (import_products bf fs d)) =
     (fst (import_products bf fs d), snd (import_products bf fs d))"
  proof (cases "choose_backup_file bf fs")
    case (Inl f)
    then show ?thesis using unread by blast
  next
    case (Inr path')
    show ?thesis
    proof (cases "read_snapshot path' fs")
      case (Inl f)
      with Inr show ?thesis using unread by blast
    next
      case r: (Inr S')
      from read [OF Inr r] show ?thesis by simp
    qed
  qed
  with read show ?thesis by blast
qed

lemma read_good_backup:
  "read_snapshot ''backups/products_20240102_120000.json'' good_backup = Inr snapshot_a"
  by (simp add: read_snapshot_def good_backup_def)

lemma import_good_backup: "import_products None good_backup shop_db = (True, shop_db_imported)"
proof -
  have "working (import_loop snapshot_a (begin_session shop_db)) = shop_db_imported"
    by (simp add: snapshot_a_def begin_session_def shop_db_def shop_db_imported_def
        category_by_name_def product_by_name_category_def on_working_def insert_product_def
        next_id_def)
  with import_products_read [OF choose_good_backup read_good_backup, of shop_db]
  show ?thesis by simp
qed

theorem import_idempotent_witness:
  "choose_backup_file None good_backup = Inr ''backups/products_20240102_120000.json'' \<and>
   read_snapshot ''backups/products_20240102_120000.json'' good_backup = Inr snapshot_a \<and>
   import_products None good_backup shop_db = (True, shop_db_imported) \<and>
   shop_db_imported \<noteq> shop_db \<and>
   import_products None good_backup shop_db_imported = (True, shop_db_imported)"
proof -
  have "shop_db_imported \<noteq> shop_db"
  proof
    assume "shop_db_imported = shop_db"
    then have "length (products shop_db_imported) = length (products shop_db)" by simp
    then show False by (simp add: shop_db_imported_def shop_db_def)
  qed
  with import_idempotent [of None good_backup shop_db
      "''backups/products_20240102_120000.json''" snapshot_a]
    choose_good_backup read_good_backup import_good_backup
  show ?thesis by simp
qed

text \<open>
  C7. When the snapshot can be read, \<^verbatim>\<open>import_products\<close> returns \<^verbatim>\<open>True\<close> whatever
  the entries' categories are; the store it leaves is the one that the loop gives on the
  snapshot without the entries whose category does not resolve, so such an entry inserts
  nothing and stops nothing; and every entry whose category resolves has, after the
  import, a product of its name in that category, which is a new row when the store had
  none before.
\<close>

theorem import_partial_tolerance:
  assumes "choose_backup_file bf fs = Inr path" and "read_snapshot path fs = Inr S"
  shows "fst (import_products bf fs d) = True \<and>
         snd (import_products bf fs d) =
           working (import_loop (filter (resolvable d) S) (begin_session d)) \<and>
         (\<forall>pd \<in> set S. \<forall>c. category_by_name (pd_category pd) d = Some c \<longrightarrow>
            (\<exists>p \<in> set (products (snd (import_products bf fs d))).
               p_name p = pd_name pd \<and> p_category_id p = cat_id c \<and>
               (product_by_name_category (pd_name pd) (cat_id c) d = None \<longrightarrow>
                  p \<notin> set (products d))))"
proof -
  let ?d1 = "working (import_loop S (begin_session d))"
  have eq: "import_products bf fs d = (True, ?d1)"
    using assms by (rule import_products_read)
  have skip: "?d1 = working (import_loop (filter (resolvable d) S) (begin_session d))"
    using import_loop_skips [of S "begin_session d"] by simp
  have each: "\<exists>p \<in> set (products ?d1).
               p_name p = pd_name pd \<and> p_category_id p = cat_id c \<and>
               (product_by_name_category (pd_name pd) (cat_id c) d = None \<longrightarrow>
                  p \<notin> set (products d))"
    if "pd \<in> set S" "category_by_name (pd_category pd) d = Some c" for pd c
  proof -
    from import_loop_present [of pd S "begin_session d" c] that
    have "product_by_name_category (pd_name pd) (cat_id c) ?d1 \<noteq> None" by simp
    then obtain p where p: "p \<in> set (products ?d1)" "p_name p = pd_name pd"
      "p_category_id p = cat_id c"
      unfolding product_by_name_category_def find_None_iff by blast
    have "product_by_name_category (pd_name pd) (cat_id c) d = None \<longrightarrow> p \<notin> set (products d)"
      using p(2,3) unfolding product_by_name_category_def find_None_iff by blast
    with p show ?thesis by (intro bexI [of _ p]) simp_all
  qed
  from eq skip each show ?thesis by simp
qed

theorem import_partial_tolerance_witness:
  "choose_backup_file None good_backup = Inr ''backups/products_20240102_120000.json'' \<and>
   read_snapshot ''backups/products_20240102_120000.json'' good_backup = Inr snapshot_a \<and>
   filter (resolvable shop_db) snapshot_a \<noteq> snapshot_a \<and>
   fst (import_products None good_backup shop_db) = True \<and>
   snd (import_products None good_backup shop_db) =
     working (import_loop (filter (resolvable shop_db) snapshot_a) (begin_session shop_db)) \<and>
   map p_name (products (snd (import_products None good_backup shop_db))) = [''A'', ''B'', ''C'']"
proof -
  have "filter (resolvable shop_db) snapshot_a \<noteq> snapshot_a"
  proof
    assume "filter (resolvable shop_db) snapshot_a = snapshot_a"
    then have "length (filter (resolvable shop_db) snapshot_a) = length snapshot_a" by simp
    then show False
      by (simp add: snapshot_a_def resolvable_def category_by_name_def shop_db_def)
  qed
  moreover have "map p_name (products (snd (import_products None good_backup shop_db))) =
      [''A'', ''B'', ''C'']"
    by (simp add: import_good_backup) (simp add: shop_db_imported_def shop_db_def)
  ultimately show ?thesis
    using import_partial_tolerance [OF choose_good_backup read_good_backup, of shop_db]
      choose_good_backup read_good_backup by blast
qed

subsection \<open>Aggregation in the cart\<close>

lemma next_id_fresh: "x \<in> set ids \<Longrightarrow> x < next_id ids"
proof (cases ids)
  case Nil
  then show "x \<in> set ids \<Longrightarrow> x < next_id ids" by simp
next
  case (Cons a as)
  assume "x \<in> set ids"
  with Cons have "x \<le> Max (set (a # as))" by (intro Max_ge) simp_all
  also have "Max (set (a # as)) = fold max as a" by (rule Max.set_eq_fold)
  finally show "x < next_id ids" using Cons by (simp add: next_id_def)
qed

lemma next_id_not_in: "next_id ids \<notin> set ids"
  using next_id_fresh [of "next_id ids" ids] by auto

lemma find_append_new: "find P xs = None \<Longrightarrow> P x \<Longrightarrow> find P (xs @ [x]) = Some x"
  by (induction xs) (auto split: if_splits)

lemma find_append_old: "find P xs = Some y \<Longrightarrow> find P (xs @ ys) = Some y"
  by (induction xs) (auto split: if_splits)

lemma ensure_user_result:
  assumes "ensure_user tid s = (u, s1)"
  shows "user_by_telegram_id tid (working s1) = Some u"
    and "user_by_telegram_id tid (working s) \<noteq> None \<Longrightarrow> s1 = s"
    and "user_by_telegram_id tid (working s) = None \<Longrightarrow>
           u_id u = next_id (map u_id (users (working s))) \<and>
           users (working s1) = users (working s) @ [u]"
  using assms
  by (auto simp: ensure_user_def insert_user_def Let_def user_by_telegram_id_def
      find_append_new split: option.splits)

lemma ensure_cart_result:
  assumes "ensure_cart uid s = (c, s1)"
  shows "cart_by_user_id uid (working s1) = Some c"
    and "cart_by_user_id uid (working s) \<noteq> None \<Longrightarrow> s1 = s"
    and "cart_by_user_id uid (working s) = None \<Longrightarrow>
           cart_id c = next_id (map cart_id (carts (working s))) \<and>
           carts (working s1) = carts (working s) @ [c]"
  using assms
  by (auto simp: ensure_cart_def insert_cart_def Let_def cart_by_user_id_def
      find_append_new split: option.splits)

lemma add_to_cart_db_ok:
  assumes "product_by_id pid d = Some p"
    and "ensure_user uid (begin_session d) = (u, s1)"
    and "ensure_cart (u_id u) s1 = (c, s2)"
  shows "add_to_cart_db uid pid d = (Inr (), working (upsert_cart_item (cart_id c) pid s2))"
proof -
  from ensure_user_frame [OF assms(2)] ensure_cart_frame [OF assms(3)]
  have "products (working s2) = products d" by simp
  with assms(1) have "product_by_id pid (working s2) = Some p"
    by (simp add: product_by_id_def)
  with assms(2,3) have "add_to_cart_body uid pid (begin_session d) =
      (Inr (), commit (upsert_cart_item (cart_id c) pid s2))"
    by (simp add: add_to_cart_body_def)
  then have "add_to_cart_db uid pid d =
      (Inr (), working (commit (upsert_cart_item (cart_id c) pid s2)))"
    unfolding add_to_cart_db_def by (rule session_scope_Inr)
  then show ?thesis by (simp add: commit_def)
qed

lemma upsert_frame:
  "users (working (upsert_cart_item cid pid s)) = users (working s) \<and>
   carts (working (upsert_cart_item cid pid s)) = carts (working s) \<and>
   products (working (upsert_cart_item cid pid s)) = products (working s) \<and>
   categories (working (upsert_cart_item cid pid s)) = categories (working s) \<and>
   orders (working (upsert_cart_item cid pid s)) = orders (working s) \<and>
   order_items (working (upsert_cart_item cid pid s)) = order_items (working s)"
  by (simp add: upsert_cart_item_def on_working_def increment_quantity_def insert_cart_item_def
      split: option.splits)

lemma upsert_keys:
  "one_row_per_product (working s) \<Longrightarrow> one_row_per_product (working (upsert_cart_item cid pid s))"
proof (cases "cart_item_of cid pid (working s)")
  case None
  assume d: "one_row_per_product (working s)"
  from None have "(cid, pid) \<notin> set (map (\<lambda>i. (ci_cart_id i, ci_product_id i)) (cart_items (working s)))"
    by (auto simp: cart_item_of_def find_None_iff)
  with d None show ?thesis
    by (simp add: upsert_cart_item_def on_working_def insert_cart_item_def one_row_per_product_def)
next
  case (Some item)
  assume d: "one_row_per_product (working s)"
  have "map (\<lambda>i. (ci_cart_id i, ci_product_id i)) (cart_items (increment_quantity item w)) =
        map (\<lambda>i. (ci_cart_id i, ci_product_id i)) (cart_items w)" for w
    by (simp add: increment_quantity_def comp_def if_distrib cong: if_cong)
  with d have "one_row_per_product (increment_quantity item (working s))"
    by (simp add: one_row_per_product_def)
  with Some show ?thesis
    by (simp add: upsert_cart_item_def on_working_def)
qed

lemma add_to_cart_db_keys:
  assumes "one_row_per_product d"
  shows "one_row_per_product (snd (add_to_cart_db uid pid d))"
proof (cases "product_by_id pid d")
  case None
  from add_to_cart_db_no_product [OF None, of uid] assms show ?thesis by simp
next
  case (Some p)
  obtain u s1 where s1: "ensure_user uid (begin_session d) = (u, s1)"
    by (cases "ensure_user uid (begin_session d)")
  obtain c s2 where s2: "ensure_cart (u_id u) s1 = (c, s2)"
    by (cases "ensure_cart (u_id u) s1")
  from ensure_user_frame [OF s1] ensure_cart_frame [OF s2]
  have "cart_items (working s2) = cart_items d" by simp
  with assms have "one_row_per_product (working s2)"
    by (simp add: one_row_per_product_def)
  then have "one_row_per_product (working (upsert_cart_item (cart_id c) pid s2))"
    by (rule upsert_keys)
  with add_to_cart_db_ok [OF Some s1 s2] show ?thesis by simp
qed

lemma add_calls_keys:
  "one_row_per_product d \<Longrightarrow> one_row_per_product (add_calls calls d)"
  by (induction calls d rule: add_calls.induct) (simp_all add: add_to_cart_db_keys)

lemma distinct_keys_count:
  "distinct (map k xs) \<Longrightarrow> length (filter (\<lambda>i. k i = key) xs) \<le> 1"
proof (induction xs)
  case Nil
  show ?case by simp
next
  case (Cons x xs)
  show ?case
  proof (cases "k x = key")
    case True
    from Cons.prems have nin: "k x \<notin> set (map k xs)" by simp
    have "k i \<noteq> key" if "i \<in> set xs" for i
    proof
      assume eq: "k i = key"
      from that have "k i \<in> set (map k xs)" by simp
      with eq True nin show False by simp
    qed
    then have "filter (\<lambda>i. k i = key) xs = []"
      by (simp add: filter_empty_conv)
    with True show ?thesis by simp
  next
    case False
    with Cons show ?thesis by simp
  qed
qed

lemma get_cart_items_eq:
  "get_cart_items uid d =
     (case user_cart_items uid d of None \<Rightarrow> Inr [] | Some xs \<Rightarrow> cart_entries d xs, d)"
  by (simp add: get_cart_items_def session_scope_def get_cart_items_body_def user_cart_items_def
      commit_def rollback_def split: option.splits sum.splits)

lemma cart_entries_Nil: "cart_entries d xs = Inr [] \<Longrightarrow> xs = []"
  by (cases xs) (auto split: option.splits sum.splits)

lemma empty_cart_cases:
  "fst (get_cart_items uid d) = Inr [] \<Longrightarrow>
   user_cart_items uid d = None \<or> user_cart_items uid d = Some []"
  by (auto simp: get_cart_items_eq dest: cart_entries_Nil split: option.splits)

lemma add_to_cart_db_products:
  "products (snd (add_to_cart_db uid pid d)) = products d"
proof (cases "product_by_id pid d")
  case None
  from add_to_cart_db_no_product [OF None, of uid] show ?thesis by simp
next
  case (Some p)
  obtain u s1 where s1: "ensure_user uid (begin_session d) = (u, s1)"
    by (cases "ensure_user uid (begin_session d)")
  obtain c s2 where s2: "ensure_cart (u_id u) s1 = (c, s2)"
    by (cases "ensure_cart (u_id u) s1")
  from ensure_user_frame [OF s1] ensure_cart_frame [OF s2] add_to_cart_db_ok [OF Some s1 s2]
  show ?thesis by (simp add: upsert_frame)
qed

lemma first_add:
  assumes refs: "cart_refs_ok d"
    and p: "product_by_id pid d = Some p"
    and empty: "user_cart_items uid d = None \<or> user_cart_items uid d = Some []"
  shows "\<exists>i c. user_cart_items uid (snd (add_to_cart_db uid pid d)) =
           Some [\<lparr>ci_id = i, ci_cart_id = c, ci_product_id = pid, ci_quantity = 1\<rparr>]"
proof -
  obtain u s1 where s1: "ensure_user uid (begin_session d) = (u, s1)"
    by (cases "ensure_user uid (begin_session d)")
  obtain c s2 where s2: "ensure_cart (u_id u) s1 = (c, s2)"
    by (cases "ensure_cart (u_id u) s1")
  note f1 = ensure_user_frame [OF s1] and f2 = ensure_cart_frame [OF s2]
  note r1 = ensure_user_result [OF s1] and r2 = ensure_cart_result [OF s2]
  let ?d' = "working (upsert_cart_item (cart_id c) pid s2)"
  from f1 f2 have ci: "cart_items (working s2) = cart_items d" by simp
  from refs have carts_ok: "\<And>x. x \<in> set (carts d) \<Longrightarrow> cart_user_id x \<in> set (map u_id (users d))"
    and items_ok: "\<And>i. i \<in> set (cart_items d) \<Longrightarrow> ci_cart_id i \<in> set (map cart_id (carts d))"
    by (auto simp: cart_refs_ok_def list_all_iff)
  have fresh_cart: "items_of_cart (cart_id c) d = []"
    if new: "cart_id c = next_id (map cart_id (carts d))"
  proof -
    have "ci_cart_id i \<noteq> cart_id c" if "i \<in> set (cart_items d)" for i
    proof
      assume "ci_cart_id i = cart_id c"
      with items_ok [OF that] new have "next_id (map cart_id (carts d)) \<in> set (map cart_id (carts d))"
        by simp
      with next_id_not_in show False by blast
    qed
    then show ?thesis by (simp add: items_of_cart_def filter_empty_conv)
  qed
  have E: "items_of_cart (cart_id c) d = []"
  proof (cases "user_by_telegram_id uid d")
    case None
    with r1(3) have uid': "u_id u = next_id (map u_id (users d))" by simp
    from f1 have c1: "carts (working s1) = carts d" by simp
    have "cart_user_id x \<noteq> u_id u" if "x \<in> set (carts d)" for x
    proof
      assume "cart_user_id x = u_id u"
      with carts_ok [OF that] uid' have "next_id (map u_id (users d)) \<in> set (map u_id (users d))"
        by simp
      with next_id_not_in show False by blast
    qed
    then have "cart_by_user_id (u_id u) (working s1) = None"
      by (simp add: cart_by_user_id_def find_None_iff c1)
    with r2(3) c1 have "cart_id c = next_id (map cart_id (carts d))" by simp
    then show ?thesis by (rule fresh_cart)
  next
    case (Some u0)
    with r1(2) have s1_eq: "s1 = begin_session d" by simp
    with r1(1) Some have u: "u = u0" by simp
    show ?thesis
    proof (cases "cart_by_user_id (u_id u) d")
      case None
      with r2(3) s1_eq have "cart_id c = next_id (map cart_id (carts d))" by simp
      then show ?thesis by (rule fresh_cart)
    next
      case c0: (Some c0)
      with r2(2) s1_eq have "s2 = begin_session d" by simp
      with r2(1) c0 have "c = c0" by simp
      with empty Some u c0 show ?thesis by (simp add: user_cart_items_def)
    qed
  qed
  then have none: "cart_item_of (cart_id c) pid (working s2) = None"
    by (auto simp: cart_item_of_def find_None_iff ci items_of_cart_def filter_empty_conv)
  let ?new = "\<lparr>ci_id = next_id (map ci_id (cart_items d)), ci_cart_id = cart_id c,
               ci_product_id = pid, ci_quantity = 1\<rparr>"
  from none have items': "cart_items ?d' = cart_items d @ [?new]"
    by (simp add: upsert_cart_item_def on_working_def insert_cart_item_def ci)
  with E have "items_of_cart (cart_id c) ?d' = [?new]"
    by (simp add: items_of_cart_def)
  moreover have "user_by_telegram_id uid ?d' = Some u"
    using r1(1) f2 by (simp add: user_by_telegram_id_def upsert_frame)
  moreover have "cart_by_user_id (u_id u) ?d' = Some c"
    using r2(1) by (simp add: cart_by_user_id_def upsert_frame)
  ultimately have "user_cart_items uid ?d' = Some [?new]"
    by (simp add: user_cart_items_def)
  with add_to_cart_db_ok [OF p s1 s2] show ?thesis by auto
qed

lemma find_filter: "find (\<lambda>j. P j \<and> Q j) xs = find Q (filter P xs)"
  by (induction xs) auto

lemma next_add:
  assumes p: "product_by_id pid d = Some p"
    and one: "user_cart_items uid d =
                Some [\<lparr>ci_id = i, ci_cart_id = cid, ci_product_id = pid, ci_quantity = q\<rparr>]"
  shows "user_cart_items uid (snd (add_to_cart_db uid pid d)) =
           Some [\<lparr>ci_id = i, ci_cart_id = cid, ci_product_id = pid, ci_quantity = q + 1\<rparr>]"
proof -
  let ?item = "\<lparr>ci_id = i, ci_cart_id = cid, ci_product_id = pid, ci_quantity = q\<rparr>"
  from one obtain u c where u: "user_by_telegram_id uid d = Some u"
    and c: "cart_by_user_id (u_id u) d = Some c"
    and items: "items_of_cart (cart_id c) d = [?item]"
    by (auto simp: user_cart_items_def split: option.splits)
  have s1: "ensure_user uid (begin_session d) = (u, begin_session d)"
    using u by (simp add: ensure_user_def)
  have s2: "ensure_cart (u_id u) (begin_session d) = (c, begin_session d)"
    using c by (simp add: ensure_cart_def)
  let ?d' = "working (upsert_cart_item (cart_id c) pid (begin_session d))"
  from items have "?item \<in> set (items_of_cart (cart_id c) d)" by simp
  then have cid: "cid = cart_id c" by (simp add: items_of_cart_def)
  have found: "cart_item_of (cart_id c) pid d = Some ?item"
    using items by (simp add: cart_item_of_def find_filter items_of_cart_def)
  have keep: "(\<lambda>j. ci_cart_id j = cart_id c) \<circ>
              (\<lambda>j. if ci_id j = i then j\<lparr>ci_quantity := ci_quantity j + 1\<rparr> else j) =
              (\<lambda>j. ci_cart_id j = cart_id c)"
    by (simp add: fun_eq_iff)
  have "items_of_cart (cart_id c) (increment_quantity ?item d) =
        map (\<lambda>j. if ci_id j = i then j\<lparr>ci_quantity := ci_quantity j + 1\<rparr> else j)
          (items_of_cart (cart_id c) d)"
    unfolding items_of_cart_def increment_quantity_def
    by (simp add: filter_map keep)
  with items cid have "items_of_cart (cart_id c) (increment_quantity ?item d) =
      [\<lparr>ci_id = i, ci_cart_id = cid, ci_product_id = pid, ci_quantity = q + 1\<rparr>]"
    by simp
  with found have "items_of_cart (cart_id c) ?d' =
      [\<lparr>ci_id = i, ci_cart_id = cid, ci_product_id = pid, ci_quantity = q + 1\<rparr>]"
    by (simp add: upsert_cart_item_def on_working_def)
  moreover have "user_by_telegram_id uid ?d' = Some u"
    using u by (simp add: user_by_telegram_id_def upsert_frame)
  moreover have "cart_by_user_id (u_id u) ?d' = Some c"
    using c by (simp add: cart_by_user_id_def upsert_frame)
  ultimately have "user_cart_items uid ?d' =
      Some [\<lparr>ci_id = i, ci_cart_id = cid, ci_product_id = pid, ci_quantity = q + 1\<rparr>]"
    by (simp add: user_cart_items_def)
  with add_to_cart_db_ok [OF p s1 s2] show ?thesis by simp
qed

lemma add_calls_products: "products (add_calls calls d) = products d"
  by (induction calls d rule: add_calls.induct) (simp_all add: add_to_cart_db_products)

lemma repeated_add:
  "product_by_id pid d = Some p \<Longrightarrow>
   user_cart_items uid d =
     Some [\<lparr>ci_id = i, ci_cart_id = cid, ci_product_id = pid, ci_quantity = q\<rparr>] \<Longrightarrow>
   user_cart_items uid (add_calls (replicate n (uid, pid)) d) =
     Some [\<lparr>ci_id = i, ci_cart_id = cid, ci_product_id = pid, ci_quantity = q + int n\<rparr>]"
proof (induction n arbitrary: d q)
  case 0
  then show ?case by simp
next
  case (Suc n)
  let ?d1 = "snd (add_to_cart_db uid pid d)"
  from Suc.prems(1) have "product_by_id pid ?d1 = Some p"
    by (simp add: product_by_id_def add_to_cart_db_products)
  moreover from next_add [OF Suc.prems]
  have "user_cart_items uid ?d1 =
      Some [\<lparr>ci_id = i, ci_cart_id = cid, ci_product_id = pid, ci_quantity = q + 1\<rparr>]" .
  ultimately have "user_cart_items uid (add_calls (replicate n (uid, pid)) ?d1) =
      Some [\<lparr>ci_id = i, ci_cart_id = cid, ci_product_id = pid, ci_quantity = q + 1 + int n\<rparr>]"
    by (rule Suc.IH)
  then show ?case by (simp add: add.assoc add.commute)
qed

text \<open>
  C3. A sequence of calls of \<^verbatim>\<open>add_to_cart_db\<close>, for any users and products and
  whether the calls succeed or raise, keeps the table of cart items free of a second row
  for the same cart and product: each cart then holds at most one item for each product.
  And \<open>N \<ge> 1\<close> calls for the same user and the same existing product, from a store
  whose carts and cart items point at existing rows and in which the user's cart is
  empty or does not exist yet, leave that cart with exactly one item, of quantity \<open>N\<close>.
\<close>

theorem cart_aggregation:
  "(one_row_per_product d \<longrightarrow>
      one_row_per_product (add_calls calls d) \<and>
      length (filter (\<lambda>i. ci_cart_id i = cid \<and> ci_product_id i = product_id)
                (cart_items (add_calls calls d))) \<le> 1) \<and>
   (cart_refs_ok d \<and> product_by_id pid d = Some p \<and> fst (get_cart_items uid d) = Inr [] \<and>
    0 < N \<longrightarrow>
      (\<exists>i. get_cart_items uid (add_calls (replicate N (uid, pid)) d) =
         (Inr [\<lparr>ce_id = i, ce_product_id = pid, ce_quantity = int N, ce_name = p_name p,
                ce_price = p_price p\<rparr>],
          add_calls (replicate N (uid, pid)) d)))"
proof (intro conjI impI)
  assume "one_row_per_product d"
  then show keys: "one_row_per_product (add_calls calls d)" by (rule add_calls_keys)
  have "length (filter (\<lambda>i. (ci_cart_id i, ci_product_id i) = (cid, product_id))
                (cart_items (add_calls calls d))) \<le> 1"
    using keys unfolding one_row_per_product_def by (rule distinct_keys_count)
  then show "length (filter (\<lambda>i. ci_cart_id i = cid \<and> ci_product_id i = product_id)
                (cart_items (add_calls calls d))) \<le> 1"
    by simp
next
  assume a: "cart_refs_ok d \<and> product_by_id pid d = Some p \<and>
             fst (get_cart_items uid d) = Inr [] \<and> 0 < N"
  then obtain n where N: "N = Suc n" by (cases N) auto
  let ?d1 = "snd (add_to_cart_db uid pid d)"
  let ?dN = "add_calls (replicate N (uid, pid)) d"
  from a have p: "product_by_id pid d = Some p" by simp
  from a have "user_cart_items uid d = None \<or> user_cart_items uid d = Some []"
    by (intro empty_cart_cases) simp
  with a p obtain i c where
    one: "user_cart_items uid ?d1 =
            Some [\<lparr>ci_id = i, ci_cart_id = c, ci_product_id = pid, ci_quantity = 1\<rparr>]"
    using first_add [of d pid p uid] by blast
  from p have p1: "product_by_id pid ?d1 = Some p"
    by (simp add: product_by_id_def add_to_cart_db_products)
  from repeated_add [OF p1 one, of n] N
  have items: "user_cart_items uid ?dN =
      Some [\<lparr>ci_id = i, ci_cart_id = c, ci_product_id = pid, ci_quantity = int N\<rparr>]"
    by (simp add: add.commute)
  from p have "product_by_id pid ?dN = Some p"
    by (simp add: product_by_id_def add_calls_products)
  with items have "get_cart_items uid ?dN =
      (Inr [\<lparr>ce_id = i, ce_product_id = pid, ce_quantity = int N, ce_name = p_name p,
             ce_price = p_price p\<rparr>], ?dN)"
    by (simp add: get_cart_items_eq)
  then show "\<exists>i. get_cart_items uid ?dN =
      (Inr [\<lparr>ce_id = i, ce_product_id = pid, ce_quantity = int N, ce_name = p_name p,
             ce_price = p_price p\<rparr>], ?dN)"
    by blast
qed

lemma add_to_cart_db_eval:
  "add_to_cart_db uid pid d =
     (let (u, s1) = ensure_user uid (begin_session d);
          (c, s2) = ensure_cart (u_id u) s1
      in case product_by_id pid (working s2) of
           None \<Rightarrow> (Inl (ValueError pid), d)
         | Some p \<Rightarrow> (Inr (), working (upsert_cart_item (cart_id c) pid s2)))"
proof -
  obtain u s1 where s1: "ensure_user uid (begin_session d) = (u, s1)"
    by (cases "ensure_user uid (begin_session d)")
  obtain c s2 where s2: "ensure_cart (u_id u) s1 = (c, s2)"
    by (cases "ensure_cart (u_id u) s1")
  from ensure_user_frame [OF s1] ensure_cart_frame [OF s2]
  have pr: "products (working s2) = products d" by simp
  show ?thesis
  proof (cases "product_by_id pid d")
    case None
    with add_to_cart_db_no_product [OF None, of uid] s1 s2 pr show ?thesis
      by (simp add: product_by_id_def)
  next
    case (Some p)
    with add_to_cart_db_ok [OF Some s1 s2] s1 s2 pr show ?thesis
      by (simp add: product_by_id_def)
  qed
qed

lemma three_adds:
  "add_calls (replicate 3 (7, 1)) catalog_db =
     catalog_db\<lparr>users := [\<lparr>u_id = 1, u_telegram_id = 7, u_username = None, u_is_admin = False\<rparr>],
                carts := [\<lparr>cart_id = 1, cart_user_id = 1\<rparr>],
                cart_items := [\<lparr>ci_id = 1, ci_cart_id = 1, ci_product_id = 1, ci_quantity = 3\<rparr>]\<rparr>"
  by (simp add: numeral_3_eq_3 add_to_cart_db_eval catalog_db_def shop_db_def ensure_user_def
      ensure_cart_def begin_session_def user_by_telegram_id_def cart_by_user_id_def
      insert_user_def insert_cart_def product_by_id_def upsert_cart_item_def cart_item_of_def
      on_working_def insert_cart_item_def increment_quantity_def next_id_def Let_def)

theorem cart_aggregation_witness:
  "one_row_per_product catalog_db \<and> cart_refs_ok catalog_db \<and>
   product_by_id 1 catalog_db =
     Some \<lparr>p_id = 1, p_name = ''A'', p_description = ''a'', p_price = 10,
           p_image_path = ''a.png'', p_category_id = 1\<rparr> \<and>
   fst (get_cart_items 7 catalog_db) = Inr [] \<and> (0::nat) < 3 \<and>
   one_row_per_product (add_calls [(7, 1), (7, 2), (7, 1), (8, 9)] catalog_db) \<and>
   length (filter (\<lambda>i. ci_cart_id i = 1 \<and> ci_product_id i = 1)
             (cart_items (add_calls [(7, 1), (7, 2), (7, 1), (8, 9)] catalog_db))) \<le> 1 \<and>
   (\<exists>i. get_cart_items 7 (add_calls (replicate 3 (7, 1)) catalog_db) =
      (Inr [\<lparr>ce_id = i, ce_product_id = 1, ce_quantity = 3, ce_name = ''A'', ce_price = 10\<rparr>],
       add_calls (replicate 3 (7, 1)) catalog_db)) \<and>
   cart_items (add_calls (replicate 3 (7, 1)) catalog_db) =
     [\<lparr>ci_id = 1, ci_cart_id = 1, ci_product_id = 1, ci_quantity = 3\<rparr>]"
proof -
  let ?p = "\<lparr>p_id = 1, p_name = ''A'', p_description = ''a'', p_price = 10,
             p_image_path = ''a.png'', p_category_id = 1\<rparr>"
  have h1: "one_row_per_product catalog_db"
    by (simp add: one_row_per_product_def catalog_db_def)
  have h2: "cart_refs_ok catalog_db"
    by (simp add: cart_refs_ok_def catalog_db_def)
  have h3: "product_by_id 1 catalog_db = Some ?p"
    by (simp add: product_by_id_def catalog_db_def shop_db_def)
  have h4: "fst (get_cart_items 7 catalog_db) = Inr []"
    by (simp add: get_cart_items_eq user_cart_items_def user_by_telegram_id_def catalog_db_def)
  have h5: "(0::nat) < 3" by simp
  have e: "cart_items (add_calls (replicate 3 (7, 1)) catalog_db) =
     [\<lparr>ci_id = 1, ci_cart_id = 1, ci_product_id = 1, ci_quantity = 3\<rparr>]"
    by (simp add: three_adds)
  from cart_aggregation [of catalog_db "[(7, 1), (7, 2), (7, 1), (8, 9)]" 1 1 1 ?p 7 3]
    h1 h2 h3 h4 h5 e
  show ?thesis by simp
qed

subsection \<open>The stores the module can produce\<close>

lemma store_ok_fresh:
  "carts d = [] \<Longrightarrow> cart_items d = [] \<Longrightarrow> orders d = [] \<Longrightarrow> order_items d = [] \<Longrightarrow> store_ok d"
  by (simp add: store_ok_def cart_refs_ok_def one_row_per_product_def)

lemma list_all_mono_set: "list_all (\<lambda>x. f x \<in> A) xs \<Longrightarrow> A \<subseteq> B \<Longrightarrow> list_all (\<lambda>x. f x \<in> B) xs"
  by (auto simp: list_all_iff)

lemma store_ok_grow:
  assumes ok: "store_ok d"
    and u: "set (map u_id (users d)) \<subseteq> set (map u_id (users d'))"
    and p: "set (map p_id (products d)) \<subseteq> set (map p_id (products d'))"
    and eq: "carts d' = carts d" "cart_items d' = cart_items d"
      "orders d' = orders d" "order_items d' = order_items d"
  shows "store_ok d'"
proof -
  from ok have a: "list_all (\<lambda>c. cart_user_id c \<in> set (map u_id (users d))) (carts d)"
    and b: "list_all (\<lambda>i. ci_cart_id i \<in> set (map cart_id (carts d))) (cart_items d)"
    and c: "list_all (\<lambda>i. ci_product_id i \<in> set (map p_id (products d))) (cart_items d)"
    and e: "list_all (\<lambda>x. o_user_id x \<in> set (map u_id (users d))) (orders d)"
    and f: "list_all (\<lambda>i. oi_product_id i \<in> set (map p_id (products d))) (order_items d)"
    and g: "one_row_per_product d"
    by (simp_all add: store_ok_def cart_refs_ok_def)
  note a' = list_all_mono_set [OF a u] and c' = list_all_mono_set [OF c p]
    and e' = list_all_mono_set [OF e u] and f' = list_all_mono_set [OF f p]
  from g eq have "one_row_per_product d'" by (simp add: one_row_per_product_def)
  with a' b c' e' f' eq show ?thesis
    by (simp add: store_ok_def cart_refs_ok_def)
qed

lemma update_user_ids: "map u_id (users (update_user u adm name d)) = map u_id (users d)"
proof -
  have "map u_id (map (\<lambda>x. if u_id x = k then x\<lparr>u_is_admin := adm, u_username := g x\<rparr> else x) xs) =
        map u_id xs" for k g and xs :: "user list"
    by (induction xs) simp_all
  then show ?thesis by (simp add: update_user_def)
qed

lemma update_user_frame:
  "products (update_user u adm name d) = products d \<and>
   carts (update_user u adm name d) = carts d \<and>
   cart_items (update_user u adm name d) = cart_items d \<and>
   orders (update_user u adm name d) = orders d \<and>
   order_items (update_user u adm name d) = order_items d"
  by (simp add: update_user_def)

lemma insert_user_frame:
  "set (map u_id (users d)) \<subseteq> set (map u_id (users (snd (insert_user tid name adm d)))) \<and>
   products (snd (insert_user tid name adm d)) = products d \<and>
   carts (snd (insert_user tid name adm d)) = carts d \<and>
   cart_items (snd (insert_user tid name adm d)) = cart_items d \<and>
   orders (snd (insert_user tid name adm d)) = orders d \<and>
   order_items (snd (insert_user tid name adm d)) = order_items d"
  by (auto simp: insert_user_def Let_def)

lemma add_user_frame:
  "set (map u_id (users d)) \<subseteq> set (map u_id (users (snd (add_user tid adm name d)))) \<and>
   products (snd (add_user tid adm name d)) = products d \<and>
   carts (snd (add_user tid adm name d)) = carts d \<and>
   cart_items (snd (add_user tid adm name d)) = cart_items d \<and>
   orders (snd (add_user tid adm name d)) = orders d \<and>
   order_items (snd (add_user tid adm name d)) = order_items d"
proof (cases "user_by_telegram_id tid d")
  case None
  then have "snd (add_user tid adm name d) = snd (insert_user tid name adm d)"
    by (simp add: add_user_def session_scope_def add_user_body_def commit_def)
  with insert_user_frame [of d tid name adm] show ?thesis by simp
next
  case (Some u)
  then have "snd (add_user tid adm name d) = update_user u adm name d"
    by (simp add: add_user_def session_scope_def add_user_body_def commit_def on_working_def)
  with update_user_ids [of u adm name d] update_user_frame [of u adm name d]
  show ?thesis by simp
qed

lemma store_ok_add_user:
  assumes "store_ok d"
  shows "store_ok (snd (add_user tid adm name d))"
  using add_user_frame [of d tid adm name] by (intro store_ok_grow [OF assms]) simp_all

lemma add_product_frame:
  "set (map p_id (products d)) \<subseteq> set (map p_id (products (snd (add_product n de pr cn img d)))) \<and>
   users (snd (add_product n de pr cn img d)) = users d \<and>
   carts (snd (add_product n de pr cn img d)) = carts d \<and>
   cart_items (snd (add_product n de pr cn img d)) = cart_items d \<and>
   orders (snd (add_product n de pr cn img d)) = orders d \<and>
   order_items (snd (add_product n de pr cn img d)) = order_items d"
  by (auto simp: add_product_def session_scope_def add_product_body_def commit_def on_working_def
      insert_product_def split: option.splits)

lemma store_ok_add_product:
  assumes "store_ok d"
  shows "store_ok (snd (add_product n de pr cn img d))"
  using add_product_frame [of d n de pr cn img] by (intro store_ok_grow [OF assms]) simp_all

lemma import_products_frame:
  "set (map p_id (products d)) \<subseteq> set (map p_id (products (snd (import_products bf fs d)))) \<and>
   users (snd (import_products bf fs d)) = users d \<and>
   carts (snd (import_products bf fs d)) = carts d \<and>
   cart_items (snd (import_products bf fs d)) = cart_items d \<and>
   orders (snd (import_products bf fs d)) = orders d \<and>
   order_items (snd (import_products bf fs d)) = order_items d"
proof (cases "choose_backup_file bf fs")
  case (Inl f)
  then show ?thesis by (simp add: import_products_unread)
next
  case (Inr path)
  show ?thesis
  proof (cases "read_snapshot path fs")
    case (Inl f)
    with Inr show ?thesis by (simp add: import_products_unread)
  next
    case r: (Inr S)
    from import_loop_products [of S "begin_session d"] obtain new where
      "products (working (import_loop S (begin_session d))) = products d @ new" by auto
    with import_loop_frame [of S "begin_session d"] show ?thesis
      by (simp add: import_products_read [OF Inr r])
  qed
qed

lemma store_ok_import_products:
  assumes "store_ok d"
  shows "store_ok (snd (import_products bf fs d))"
  using import_products_frame [of d bf fs] by (intro store_ok_grow [OF assms]) simp_all

lemma seed_loop_frame:
  "committed (seed_loop ns s) = committed s \<and>
   users (working (seed_loop ns s)) = users (working s) \<and>
   products (working (seed_loop ns s)) = products (working s) \<and>
   carts (working (seed_loop ns s)) = carts (working s) \<and>
   cart_items (working (seed_loop ns s)) = cart_items (working s) \<and>
   orders (working (seed_loop ns s)) = orders (working s) \<and>
   order_items (working (seed_loop ns s)) = order_items (working s)"
  by (induction ns arbitrary: s)
    (simp_all add: on_working_def insert_category_def split: option.splits)

lemma init_db_eq:
  "snd (init_db admin_id fs d) =
     snd (import_products None fs
       (let d1 = working (seed_loop seed_categories (begin_session d)) in
        if admin_id \<noteq> 0 \<and> user_by_telegram_id admin_id d1 = None
        then snd (insert_user admin_id None True d1) else d1))"
  by (simp add: init_db_def session_scope_def init_db_body_def commit_def Let_def
      split: option.splits)

lemma store_ok_init_db:
  assumes "store_ok d"
  shows "store_ok (snd (init_db admin_id fs d))"
proof -
  let ?d1 = "working (seed_loop seed_categories (begin_session d))"
  have f1: "users ?d1 = users d" "products ?d1 = products d" "carts ?d1 = carts d"
    "cart_items ?d1 = cart_items d" "orders ?d1 = orders d" "order_items ?d1 = order_items d"
    by (simp_all add: seed_loop_frame)
  then have ok1: "store_ok ?d1" by (intro store_ok_grow [OF assms]) simp_all
  have ok2: "store_ok (snd (insert_user admin_id None True ?d1))"
    using insert_user_frame [of ?d1 admin_id None True]
    by (intro store_ok_grow [OF ok1]) simp_all
  show ?thesis
    unfolding init_db_eq Let_def
    by (intro store_ok_import_products) (simp add: ok1 ok2)
qed

lemma store_ok_delete_cart_items:
  assumes ok: "store_ok d"
  shows "store_ok (delete_cart_items cid d)"
proof -
  from ok have a: "list_all (\<lambda>c. cart_user_id c \<in> set (map u_id (users d))) (carts d)"
    and b: "list_all (\<lambda>i. ci_cart_id i \<in> set (map cart_id (carts d))) (cart_items d)"
    and c: "list_all (\<lambda>i. ci_product_id i \<in> set (map p_id (products d))) (cart_items d)"
    and e: "list_all (\<lambda>x. o_user_id x \<in> set (map u_id (users d))) (orders d)"
    and f: "list_all (\<lambda>i. oi_product_id i \<in> set (map p_id (products d))) (order_items d)"
    and g: "one_row_per_product d"
    by (simp_all add: store_ok_def cart_refs_ok_def)
  let ?xs = "filter (\<lambda>i. ci_cart_id i \<noteq> cid) (cart_items d)"
  from b have b': "list_all (\<lambda>i. ci_cart_id i \<in> set (map cart_id (carts d))) ?xs"
    by (simp add: list_all_iff)
  from c have c': "list_all (\<lambda>i. ci_product_id i \<in> set (map p_id (products d))) ?xs"
    by (simp add: list_all_iff)
  from g have g': "distinct (map (\<lambda>i. (ci_cart_id i, ci_product_id i)) ?xs)"
    by (simp add: one_row_per_product_def distinct_map_filter)
  from a b' c' e f g' show ?thesis
    by (simp add: store_ok_def cart_refs_ok_def one_row_per_product_def delete_cart_items_def)
qed

lemma store_ok_clear_cart:
  assumes "store_ok d"
  shows "store_ok (snd (clear_cart uid d))"
  using assms store_ok_delete_cart_items [OF assms]
  by (simp add: clear_cart_def session_scope_def clear_cart_body_def commit_def on_working_def
      split: option.splits)

lemma store_ok_parts:
  "store_ok d \<longleftrightarrow>
     list_all (\<lambda>c. cart_user_id c \<in> set (map u_id (users d))) (carts d) \<and>
     list_all (\<lambda>i. ci_cart_id i \<in> set (map cart_id (carts d))) (cart_items d) \<and>
     list_all (\<lambda>i. ci_product_id i \<in> set (map p_id (products d))) (cart_items d) \<and>
     list_all (\<lambda>x. o_user_id x \<in> set (map u_id (users d))) (orders d) \<and>
     list_all (\<lambda>i. oi_product_id i \<in> set (map p_id (products d))) (order_items d) \<and>
     distinct (map (\<lambda>i. (ci_cart_id i, ci_product_id i)) (cart_items d))"
  by (simp add: store_ok_def cart_refs_ok_def one_row_per_product_def)

lemma find_Some_in: "find P xs = Some x \<Longrightarrow> x \<in> set xs \<and> P x"
  by (induction xs) (auto split: if_splits)

lemma ensure_user_ok:
  assumes ok: "store_ok (working s)" and e: "ensure_user tid s = (u, s1)"
  shows "store_ok (working s1)" and "u_id u \<in> set (map u_id (users (working s1)))"
proof -
  from ensure_user_result(1) [OF e] have "u \<in> set (users (working s1))"
    unfolding user_by_telegram_id_def by (auto dest: find_Some_in)
  then show "u_id u \<in> set (map u_id (users (working s1)))" by simp
  show "store_ok (working s1)"
  proof (cases "user_by_telegram_id tid (working s)")
    case None
    with e have "working s1 = snd (insert_user tid None False (working s))"
      by (auto simp: ensure_user_def split: prod.splits)
    with insert_user_frame [of "working s" tid None False] show ?thesis
      by (intro store_ok_grow [OF ok]) simp_all
  next
    case (Some u0)
    with e ok show ?thesis by (simp add: ensure_user_def)
  qed
qed

lemma ensure_cart_ok:
  assumes ok: "store_ok (working s)"
    and u: "uid \<in> set (map u_id (users (working s)))"
    and e: "ensure_cart uid s = (c, s2)"
  shows "store_ok (working s2)" and "cart_id c \<in> set (map cart_id (carts (working s2)))"
    and "products (working s2) = products (working s)"
proof -
  from ensure_cart_result(1) [OF e] have "c \<in> set (carts (working s2))"
    unfolding cart_by_user_id_def by (auto dest: find_Some_in)
  then show "cart_id c \<in> set (map cart_id (carts (working s2)))" by simp
  from ensure_cart_frame [OF e] show "products (working s2) = products (working s)" by simp
  show "store_ok (working s2)"
  proof (cases "cart_by_user_id uid (working s)")
    case None
    let ?c = "\<lparr>cart_id = next_id (map cart_id (carts (working s))), cart_user_id = uid\<rparr>"
    from None e have w: "working s2 = (working s)\<lparr>carts := carts (working s) @ [?c]\<rparr>"
      by (auto simp: ensure_cart_def insert_cart_def Let_def)
    from ok have "list_all (\<lambda>i. ci_cart_id i \<in> set (map cart_id (carts (working s))))
        (cart_items (working s))"
      by (simp add: store_ok_parts)
    then have "list_all (\<lambda>i. ci_cart_id i \<in> set (map cart_id (carts (working s) @ [?c])))
        (cart_items (working s))"
      by (rule list_all_mono_set) auto
    with ok u show ?thesis
      unfolding w store_ok_parts by simp
  next
    case (Some c0)
    with e ok show ?thesis by (simp add: ensure_cart_def)
  qed
qed

lemma upsert_ok:
  assumes ok: "store_ok (working s)"
    and c: "cid \<in> set (map cart_id (carts (working s)))"
    and p: "pid \<in> set (map p_id (products (working s)))"
  shows "store_ok (working (upsert_cart_item cid pid s))"
proof -
  let ?w = "working s"
  let ?w' = "working (upsert_cart_item cid pid s)"
  from ok have g: "one_row_per_product ?w" by (simp add: store_ok_def)
  then have g': "one_row_per_product ?w'" by (rule upsert_keys)
  have refs: "list_all (\<lambda>i. ci_cart_id i \<in> set (map cart_id (carts ?w))) (cart_items ?w') \<and>
        list_all (\<lambda>i. ci_product_id i \<in> set (map p_id (products ?w))) (cart_items ?w')"
  proof (cases "cart_item_of cid pid ?w")
    case None
    with ok c p show ?thesis
      by (simp add: upsert_cart_item_def on_working_def insert_cart_item_def store_ok_parts)
  next
    case (Some item)
    from ok have "list_all (\<lambda>i. ci_cart_id i \<in> set (map cart_id (carts ?w))) (cart_items ?w)"
      and "list_all (\<lambda>i. ci_product_id i \<in> set (map p_id (products ?w))) (cart_items ?w)"
      by (simp_all add: store_ok_parts)
    with Some show ?thesis
      by (auto simp: upsert_cart_item_def on_working_def increment_quantity_def list_all_iff)
  qed
  from ok refs g' upsert_frame [of cid pid s] show ?thesis
    by (simp add: store_ok_def cart_refs_ok_def)
qed

lemma store_ok_add_to_cart_db:
  assumes ok: "store_ok d"
  shows "store_ok (snd (add_to_cart_db uid pid d))"
proof (cases "product_by_id pid d")
  case None
  from add_to_cart_db_no_product [OF None, of uid] ok show ?thesis by simp
next
  case (Some p)
  obtain u s1 where s1: "ensure_user uid (begin_session d) = (u, s1)"
    by (cases "ensure_user uid (begin_session d)")
  obtain c s2 where s2: "ensure_cart (u_id u) s1 = (c, s2)"
    by (cases "ensure_cart (u_id u) s1")
  from ok have ok0: "store_ok (working (begin_session d))" by simp
  note u1 = ensure_user_ok [OF ok0 s1]
  note c2 = ensure_cart_ok [OF u1(1) u1(2) s2]
  from Some have "p \<in> set (products d) \<and> p_id p = pid"
    unfolding product_by_id_def by (rule find_Some_in)
  moreover from ensure_user_frame [OF s1] c2(3) have "products (working s2) = products d" by simp
  ultimately have "pid \<in> set (map p_id (products (working s2)))" by auto
  from upsert_ok [OF c2(1) c2(2) this] add_to_cart_db_ok [OF Some s1 s2] show ?thesis by simp
qed

lemma store_ok_create_order:
  assumes ok: "store_ok d"
  shows "store_ok (snd (create_order now uid d))"
proof (cases "user_by_telegram_id uid d")
  case None
  from create_order_no_user [OF None, of now] ok show ?thesis by simp
next
  case (Some u)
  show ?thesis
  proof (cases "cart_by_user_id (u_id u) d")
    case None
    from create_order_no_cart [OF Some None, of now] ok show ?thesis by simp
  next
    case c: (Some c)
    show ?thesis
    proof (cases "items_of_cart (cart_id c) d = []")
      case True
      from create_order_no_items [OF Some c True, of now] ok show ?thesis by simp
    next
      case ne: False
      show ?thesis
      proof (cases "list_all (has_product d) (items_of_cart (cart_id c) d)")
        case False
        from create_order_failure [OF Some c ne False, of now] ok show ?thesis by simp
      next
        case True
        let ?oid = "next_id (map o_id (orders d))"
        from create_order_success [OF Some c ne True, of now] obtain new where
          eq: "snd (create_order now uid d) =
            (delete_cart_items (cart_id c) d)
              \<lparr>orders := orders d @ [\<lparr>o_id = ?oid, o_user_id = u_id u, o_created_at = now\<rparr>],
                order_items := order_items d @ new\<rparr>"
          and all: "list_all2 (copy_of ?oid d) new (items_of_cart (cart_id c) d)"
          by (auto simp: delete_cart_items_def)
        from Some have "u \<in> set (users d)"
          unfolding user_by_telegram_id_def by (auto dest: find_Some_in)
        then have u: "u_id u \<in> set (map u_id (users d))" by simp
        have new: "list_all (\<lambda>i. oi_product_id i \<in> set (map p_id (products d))) new"
          unfolding list_all_iff
        proof
          fix n assume "n \<in> set new"
          with all obtain i where "copy_of ?oid d n i"
            by (auto simp: list_all2_conv_all_nth in_set_conv_nth)
          then obtain p where "product_by_id (oi_product_id n) d = Some p"
            by (auto simp: copy_of_def)
          then have "p \<in> set (products d) \<and> p_id p = oi_product_id n"
            unfolding product_by_id_def by (rule find_Some_in)
          then show "oi_product_id n \<in> set (map p_id (products d))" by force
        qed
        from store_ok_delete_cart_items [OF ok, of "cart_id c"] u new show ?thesis
          unfolding eq store_ok_parts by (simp add: delete_cart_items_def)
      qed
    qed
  qed
qed

text \<open>
  Every store the module can produce keeps its foreign keys pointing at existing rows
  and its cart items free of duplicates.
\<close>

lemma reachable_store_ok: "reachable d \<Longrightarrow> store_ok d"
proof (induction rule: reachable.induct)
  case (fresh d)
  then show ?case by (rule store_ok_fresh)
next
  case (by_init_db d admin_id fs)
  then show ?case by (simp add: store_ok_init_db)
next
  case (by_add_user d telegram_id is_admin username)
  then show ?case by (simp add: store_ok_add_user)
next
  case (by_add_product d n descr pr category_name img)
  then show ?case by (simp add: store_ok_add_product)
next
  case (by_add_to_cart_db d user_id product_id)
  then show ?case by (simp add: store_ok_add_to_cart_db)
next
  case (by_clear_cart d user_id)
  then show ?case by (simp add: store_ok_clear_cart)
next
  case (by_create_order d now user_id)
  then show ?case by (simp add: store_ok_create_order)
next
  case (by_import_products d backup_file fs)
  then show ?case by (simp add: store_ok_import_products)
qed

text \<open>
  So the stores that the statements about the cart and about the order details assume
  include every store the module can produce: there the carts and cart items point at
  existing rows, no cart holds two items of one product, and each order has its user row
  and its items' product rows.
\<close>

lemma reachable_cart_refs_ok: "reachable d \<Longrightarrow> cart_refs_ok d \<and> one_row_per_product d"
  by (drule reachable_store_ok) (simp add: store_ok_def)

lemma find_in_ids: "k \<in> set (map f xs) \<Longrightarrow> find (\<lambda>x. f x = k) xs \<noteq> None"
  by (auto simp: find_None_iff)

lemma reachable_order_refs:
  assumes "reachable d" and "order_by_id oid d = Some ord"
  shows "user_by_id (o_user_id ord) d \<noteq> None"
    and "list_all (\<lambda>i. product_by_id (oi_product_id i) d \<noteq> None) (items_of_order oid d)"
proof -
  from assms(1) have ok: "store_ok d" by (rule reachable_store_ok)
  from assms(2) have "ord \<in> set (orders d)"
    unfolding order_by_id_def by (auto dest: find_Some_in)
  with ok have "o_user_id ord \<in> set (map u_id (users d))"
    by (simp add: store_ok_parts list_all_iff)
  then show "user_by_id (o_user_id ord) d \<noteq> None"
    unfolding user_by_id_def by (rule find_in_ids)
  from ok have all: "list_all (\<lambda>i. oi_product_id i \<in> set (map p_id (products d))) (order_items d)"
    by (simp add: store_ok_parts)
  show "list_all (\<lambda>i. product_by_id (oi_product_id i) d \<noteq> None) (items_of_order oid d)"
    unfolding list_all_iff
  proof
    fix i assume "i \<in> set (items_of_order oid d)"
    then have "i \<in> set (order_items d)" by (simp add: items_of_order_def)
    with all have "oi_product_id i \<in> set (map p_id (products d))"
      by (simp add: list_all_iff)
    then show "product_by_id (oi_product_id i) d \<noteq> None"
      unfolding product_by_id_def by (rule find_in_ids)
  qed
qed

end
